theory Spec2Isabelle
  imports Main "HOL-Library.AList" "HOL-Library.Word"
begin

section \<open>ConversionOrchestrator: queue and worker pool (convert.js)\<close>

text \<open>
  The orchestrator of \<^verbatim>\<open>convert.js\<close> owns a \<^verbatim>\<open>Map\<close> of active workers and an array
  used as a queue. The \<^verbatim>\<open>Map\<close> is an association list in insertion order
  (\<^verbatim>\<open>set\<close> is \<open>AList.update\<close>, \<^verbatim>\<open>delete\<close> is \<open>AList.delete\<close>, \<^verbatim>\<open>size\<close> is the length); the
  queue is a list (\<^verbatim>\<open>push\<close> appends, \<^verbatim>\<open>shift\<close> takes the head). The values that successive
  calls of \<^verbatim>\<open>uuidv4()\<close> return are the field \<open>uuidv4\<close>, \<open>drawn\<close> counts the calls made.
  \<open>maxParallel\<close> is the pool size as a natural number.

  Two fields record what the object does to the outside: \<open>runLog\<close> lists the calls of
  \<^verbatim>\<open>runJob\<close> in the order they are made, \<open>settled\<close> lists the calls of a job's
  \<^verbatim>\<open>resolve\<close> (\<open>True\<close>) or \<^verbatim>\<open>reject\<close> (\<open>False\<close>) in the order they are made.
\<close>

record ('w, 'j) orchestrator =
  activeWorkers :: "('w \<times> 'j) list"
  conversionQueue :: "'j list"
  maxParallel :: nat
  uuidv4 :: "nat \<Rightarrow> 'w"
  drawn :: nat
  runLog :: "('w \<times> 'j) list"
  settled :: "('j \<times> bool) list"

text \<open>The constructor: \<^verbatim>\<open>process.env.MAX_PARALLEL_CONVERSIONS || 4\<close>.\<close>

definition new_orchestrator :: "nat option \<Rightarrow> (nat \<Rightarrow> 'w) \<Rightarrow> ('w, 'j) orchestrator" where
  "new_orchestrator env_max gen =
     \<lparr> activeWorkers = [], conversionQueue = [],
       maxParallel = (case env_max of None \<Rightarrow> 4 | Some n \<Rightarrow> n),
       uuidv4 = gen, drawn = 0, runLog = [], settled = [] \<rparr>"

text \<open>
  \<^verbatim>\<open>runJob\<close> runs synchronously up to its first \<^verbatim>\<open>await\<close>: it draws a worker id and
  registers the job. \<^verbatim>\<open>performConversion\<close> is an async function, so the call returns a
  promise and \<^verbatim>\<open>runJob\<close> is suspended there.
\<close>

definition runJob_begin :: "'j \<Rightarrow> ('w, 'j) orchestrator \<Rightarrow> ('w, 'j) orchestrator" where
  "runJob_begin job s =
     (let workerId = uuidv4 s (drawn s)
      in s\<lparr> drawn := Suc (drawn s),
            activeWorkers := AList.update workerId job (activeWorkers s),
            runLog := runLog s @ [(workerId, job)] \<rparr>)"

text \<open>The \<^verbatim>\<open>while\<close> loop of \<^verbatim>\<open>processQueue\<close>; every round shifts one entry off the queue.\<close>

function processQueue :: "('w, 'j) orchestrator \<Rightarrow> ('w, 'j) orchestrator" where
  "processQueue s =
     (if length (activeWorkers s) < maxParallel s \<and> 0 < length (conversionQueue s)
      then processQueue
             (runJob_begin (hd (conversionQueue s))
                (s\<lparr> conversionQueue := tl (conversionQueue s) \<rparr>))
      else s)"
  by pat_completeness auto
termination
  by (relation "measure (\<lambda>s. length (conversionQueue s))")
     (auto simp: runJob_begin_def Let_def)

declare processQueue.simps [simp del]

definition addJob :: "'j \<Rightarrow> ('w, 'j) orchestrator \<Rightarrow> ('w, 'j) orchestrator" where
  "addJob job s = processQueue (s\<lparr> conversionQueue := conversionQueue s @ [job] \<rparr>)"

text \<open>
  The rest of \<^verbatim>\<open>runJob\<close>, run when the conversion of worker \<open>workerId\<close> has settled:
  \<^verbatim>\<open>resolve\<close> or \<^verbatim>\<open>reject\<close>, then the \<^verbatim>\<open>finally\<close> block. Only an active worker has such a
  continuation.
\<close>

definition runJob_end :: "'w \<Rightarrow> bool \<Rightarrow> ('w, 'j) orchestrator \<Rightarrow> ('w, 'j) orchestrator" where
  "runJob_end workerId ok s =
     (case map_of (activeWorkers s) workerId of
        None \<Rightarrow> s
      | Some job \<Rightarrow>
          processQueue
            (s\<lparr> settled := settled s @ [(job, ok)],
                activeWorkers := AList.delete workerId (activeWorkers s) \<rparr>))"

text \<open>
  What can happen to an orchestrator: a caller submits a job, or the conversion of an
  active worker finishes (well or badly). A run is any sequence of these.
\<close>

datatype ('w, 'j) event = Submit 'j | Finish 'w bool

fun step :: "('w, 'j) orchestrator \<Rightarrow> ('w, 'j) event \<Rightarrow> ('w, 'j) orchestrator" where
  "step s (Submit job) = addJob job s"
| "step s (Finish workerId ok) = runJob_end workerId ok s"

definition run :: "('w, 'j) event list \<Rightarrow> ('w, 'j) orchestrator \<Rightarrow> ('w, 'j) orchestrator" where
  "run evs s = foldl step s evs"

fun submitted :: "('w, 'j) event list \<Rightarrow> 'j list" where
  "submitted [] = []"
| "submitted (Submit job # evs) = job # submitted evs"
| "submitted (Finish workerId ok # evs) = submitted evs"

subsection \<open>The pool bound\<close>

lemma length_update_le: "length (AList.update k v al) \<le> Suc (length al)"
  by (induction al) auto

lemma length_delete_le: "length (AList.delete k al) \<le> length al"
  by (induction al) auto

lemma processQueue_maxParallel [simp]: "maxParallel (processQueue s) = maxParallel s"
  by (induction s rule: processQueue.induct)
     (subst processQueue.simps, simp add: runJob_begin_def Let_def)

lemma processQueue_bound:
  "length (activeWorkers s) \<le> maxParallel s \<Longrightarrow>
   length (activeWorkers (processQueue s)) \<le> maxParallel s"
proof (induction s rule: processQueue.induct)
  case (1 s)
  show ?case
  proof (cases "length (activeWorkers s) < maxParallel s \<and> 0 < length (conversionQueue s)")
    case True
    let ?s' = "runJob_begin (hd (conversionQueue s)) (s\<lparr> conversionQueue := tl (conversionQueue s) \<rparr>)"
    have "length (activeWorkers ?s') \<le> Suc (length (activeWorkers s))"
      by (simp add: runJob_begin_def Let_def length_update_le)
    with True have "length (activeWorkers ?s') \<le> maxParallel ?s'"
      by (simp add: runJob_begin_def Let_def)
    with "1.IH" True have "length (activeWorkers (processQueue ?s')) \<le> maxParallel ?s'"
      by simp
    moreover have "processQueue s = processQueue ?s'"
      using True by (subst processQueue.simps) simp
    ultimately show ?thesis
      by (simp add: runJob_begin_def Let_def)
  next
    case False
    have "processQueue s =
            (if length (activeWorkers s) < maxParallel s \<and> 0 < length (conversionQueue s)
             then processQueue
                    (runJob_begin (hd (conversionQueue s))
                       (s\<lparr> conversionQueue := tl (conversionQueue s) \<rparr>))
             else s)"
      by (rule processQueue.simps)
    with False have "processQueue s = s"
      by (simp only: if_False)
    with "1.prems" show ?thesis by simp
  qed
qed

lemma step_maxParallel [simp]: "maxParallel (step s e) = maxParallel s"
  by (cases e) (simp_all add: addJob_def runJob_end_def split: option.splits)

lemma step_bound:
  assumes "length (activeWorkers s) \<le> maxParallel s"
  shows "length (activeWorkers (step s e)) \<le> maxParallel s"
proof (cases e)
  case (Submit job)
  have "length (activeWorkers (processQueue (s\<lparr> conversionQueue := conversionQueue s @ [job] \<rparr>)))
          \<le> maxParallel (s\<lparr> conversionQueue := conversionQueue s @ [job] \<rparr>)"
    by (rule processQueue_bound) (use assms in simp)
  with Submit show ?thesis by (simp add: addJob_def)
next
  case (Finish workerId ok)
  show ?thesis
  proof (cases "map_of (activeWorkers s) workerId")
    case None
    with Finish assms show ?thesis by (simp add: runJob_end_def)
  next
    case (Some job)
    let ?s' = "s\<lparr> settled := settled s @ [(job, ok)],
                  activeWorkers := AList.delete workerId (activeWorkers s) \<rparr>"
    have "length (activeWorkers ?s') \<le> maxParallel ?s'"
      using assms length_delete_le [of workerId "activeWorkers s"] by simp
    then have "length (activeWorkers (processQueue ?s')) \<le> maxParallel ?s'"
      by (rule processQueue_bound)
    with Finish Some show ?thesis by (simp add: runJob_end_def)
  qed
qed

lemma run_maxParallel [simp]: "maxParallel (run evs s) = maxParallel s"
  unfolding run_def by (induction evs arbitrary: s) simp_all

lemma run_bound:
  "length (activeWorkers s) \<le> maxParallel s \<Longrightarrow>
   length (activeWorkers (run evs s)) \<le> maxParallel s"
  unfolding run_def
proof (induction evs arbitrary: s)
  case Nil
  then show ?case by simp
next
  case (Cons e evs)
  from Cons.prems have "length (activeWorkers (step s e)) \<le> maxParallel (step s e)"
    by (simp add: step_bound)
  from Cons.IH [OF this] show ?case by simp
qed

text \<open>
  C1. Whatever jobs are submitted and in whatever order conversions finish, the number of
  entries in \<open>activeWorkers\<close> never exceeds \<open>maxParallel\<close>; an orchestrator built without
  the environment variable has \<open>maxParallel = 4\<close>.
\<close>

theorem active_workers_bounded:
  fixes evs :: "('w, 'j) event list"
  shows "length (activeWorkers (run evs (new_orchestrator env_max gen)))
           \<le> maxParallel (run evs (new_orchestrator env_max gen))
         \<and> maxParallel (run evs (new_orchestrator None gen)) = 4"
proof -
  let ?s = "new_orchestrator env_max gen :: ('w, 'j) orchestrator"
  have "length (activeWorkers ?s) \<le> maxParallel ?s"
    by (simp add: new_orchestrator_def)
  then have "length (activeWorkers (run evs ?s)) \<le> maxParallel ?s"
    by (rule run_bound)
  then show ?thesis
    by (simp add: new_orchestrator_def)
qed

subsection \<open>Admission order\<close>

lemma processQueue_order:
  "map snd (runLog (processQueue s)) @ conversionQueue (processQueue s)
     = map snd (runLog s) @ conversionQueue s"
proof (induction s rule: processQueue.induct)
  case (1 s)
  have unfold:
    "processQueue s =
       (if length (activeWorkers s) < maxParallel s \<and> 0 < length (conversionQueue s)
        then processQueue
               (runJob_begin (hd (conversionQueue s))
                  (s\<lparr> conversionQueue := tl (conversionQueue s) \<rparr>))
        else s)"
    by (rule processQueue.simps)
  show ?case
  proof (cases "length (activeWorkers s) < maxParallel s \<and> 0 < length (conversionQueue s)")
    case True
    let ?s' = "runJob_begin (hd (conversionQueue s)) (s\<lparr> conversionQueue := tl (conversionQueue s) \<rparr>)"
    have eq: "processQueue s = processQueue ?s'"
      using True by (subst processQueue.simps) simp
    from True obtain job rest where q: "conversionQueue s = job # rest"
      by (cases "conversionQueue s") auto
    have "map snd (runLog (processQueue ?s')) @ conversionQueue (processQueue ?s')
            = map snd (runLog ?s') @ conversionQueue ?s'"
      using "1.IH" True by simp
    also have "\<dots> = map snd (runLog s) @ conversionQueue s"
      by (simp add: runJob_begin_def Let_def q)
    finally show ?thesis
      by (simp only: eq)
  next
    case False
    with unfold have "processQueue s = s"
      by (simp only: if_False)
    then show ?thesis by simp
  qed
qed

lemma step_order:
  "map snd (runLog (step s e)) @ conversionQueue (step s e)
     = map snd (runLog s) @ conversionQueue s @ submitted [e]"
proof (cases e)
  case (Submit job)
  then show ?thesis
    by (simp add: addJob_def processQueue_order)
next
  case (Finish workerId ok)
  then show ?thesis
    by (simp add: runJob_end_def processQueue_order split: option.splits)
qed

lemma submitted_append: "submitted (xs @ ys) = submitted xs @ submitted ys"
  by (induction xs rule: submitted.induct) simp_all

lemma run_order:
  "map snd (runLog (run evs s)) @ conversionQueue (run evs s)
     = map snd (runLog s) @ conversionQueue s @ submitted evs"
  unfolding run_def
proof (induction evs arbitrary: s)
  case Nil
  then show ?case by simp
next
  case (Cons e evs)
  have "submitted (e # evs) = submitted [e] @ submitted evs"
    using submitted_append [of "[e]" evs] by simp
  with Cons.IH [of "step s e"] show ?case
    by (simp add: step_order)
qed

lemma processQueue_idle:
  "\<not> (length (activeWorkers s) < maxParallel s \<and> 0 < length (conversionQueue s)) \<Longrightarrow>
   processQueue s = s"
  by (subst processQueue.simps) (simp only: if_False)

lemma processQueue_admit:
  "length (activeWorkers s) < maxParallel s \<Longrightarrow> conversionQueue s = job # rest \<Longrightarrow>
   processQueue s = processQueue (runJob_begin job (s\<lparr> conversionQueue := rest \<rparr>))"
  by (subst processQueue.simps) simp

text \<open>
  C9. The jobs handed to \<^verbatim>\<open>runJob\<close> so far, in the order of the calls, followed by the jobs
  still queued, are the submitted jobs in the order of submission: a job is admitted only
  after every job submitted before it. The order in which results are reported is that of
  the \<open>Finish\<close> events: in the run shown, job \<open>b\<close> is admitted after job \<open>a\<close> and reported
  before it.
\<close>

theorem admission_fifo:
  fixes evs :: "('w, 'j) event list"
  shows "map snd (runLog (run evs (new_orchestrator env_max gen)))
             @ conversionQueue (run evs (new_orchestrator env_max gen)) = submitted evs
         \<and> runLog (run [Submit ''a'', Submit ''b'', Finish 1 True, Finish 0 False]
                     (new_orchestrator None (\<lambda>n. n)))
             = [(0::nat, ''a''), (1, ''b'')]
         \<and> settled (run [Submit ''a'', Submit ''b'', Finish 1 True, Finish 0 False]
                      (new_orchestrator None (\<lambda>n. n)))
             = [(''b'', True), (''a'', False)]"
proof -
  have fifo: "map snd (runLog (run evs (new_orchestrator env_max gen)))
             @ conversionQueue (run evs (new_orchestrator env_max gen)) = submitted evs"
    using run_order [of evs "new_orchestrator env_max gen"]
    by (simp add: new_orchestrator_def)
  let ?s0 = "new_orchestrator None (\<lambda>n. n) :: (nat, string) orchestrator"
  have s1: "step ?s0 (Submit ''a'') =
              ?s0\<lparr> drawn := 1, activeWorkers := [(0, ''a'')], runLog := [(0, ''a'')] \<rparr>"
    by (simp add: addJob_def new_orchestrator_def processQueue_admit [where job = "''a''" and rest = "[]"]
          runJob_begin_def processQueue_idle)
  have s2: "step (step ?s0 (Submit ''a'')) (Submit ''b'') =
              ?s0\<lparr> drawn := 2, activeWorkers := [(0, ''a''), (1, ''b'')],
                    runLog := [(0, ''a''), (1, ''b'')] \<rparr>"
    unfolding s1
    by (simp add: addJob_def new_orchestrator_def processQueue_admit [where job = "''b''" and rest = "[]"]
          runJob_begin_def processQueue_idle)
  have s3: "step (step (step ?s0 (Submit ''a'')) (Submit ''b'')) (Finish 1 True) =
              ?s0\<lparr> drawn := 2, activeWorkers := [(0, ''a'')],
                    runLog := [(0, ''a''), (1, ''b'')], settled := [(''b'', True)] \<rparr>"
    unfolding s2
    by (simp add: runJob_end_def new_orchestrator_def processQueue_idle AList.delete_eq)
  have s4: "step (step (step (step ?s0 (Submit ''a'')) (Submit ''b'')) (Finish 1 True)) (Finish 0 False) =
              ?s0\<lparr> drawn := 2, activeWorkers := [],
                    runLog := [(0, ''a''), (1, ''b'')], settled := [(''b'', True), (''a'', False)] \<rparr>"
    unfolding s3
    by (simp add: runJob_end_def new_orchestrator_def processQueue_idle AList.delete_eq)
  have "run [Submit ''a'', Submit ''b'', Finish 1 True, Finish 0 False] ?s0 =
          ?s0\<lparr> drawn := 2, activeWorkers := [],
                runLog := [(0, ''a''), (1, ''b'')], settled := [(''b'', True), (''a'', False)] \<rparr>"
    by (simp only: run_def foldl.simps s4)
  then show ?thesis
    using fifo by simp
qed

section \<open>The file system, errors and promises\<close>

text \<open>
  A file is its bytes and its modification time in milliseconds (\<^verbatim>\<open>stats.mtimeMs\<close>;
  \<^verbatim>\<open>stats.size\<close> is the number of bytes). A path is a directory and an entry name:
  \<^verbatim>\<open>path.join(directory, file)\<close> is the pair \<open>(directory, file)\<close>. The file table is an
  association list, in the order \<^verbatim>\<open>readdir\<close> lists the entries.

  Writing and unlinking can be refused by the operating system: \<open>refuses p k\<close> says that
  the \<open>k\<close>-th modification attempted on path \<open>p\<close> fails. The \<open>journal\<close> lists every
  modification attempted, with its success, in the order of the calls, and every call of
  an external engine (\<open>Invoke\<close>, with the engine's name and the output path of the
  conversion); \<open>nowMs\<close> is the clock (\<^verbatim>\<open>Date.now()\<close>), which also stamps written files.
\<close>

type_synonym byte = "8 word"
type_synonym path = "string \<times> string"

record file_entry =
  content :: "byte list"
  mtimeMs :: int

datatype fs_op =
    WriteFile path "byte list" bool
  | Unlink path bool
  | Mkdir string bool
  | Invoke string path

fun target :: "fs_op \<Rightarrow> path" where
  "target (WriteFile p d ok) = p"
| "target (Unlink p ok) = p"
| "target (Mkdir d ok) = (d, [])"
| "target (Invoke engine p) = p"

record fsys =
  dirs :: "string list"
  files :: "(path \<times> file_entry) list"
  nowMs :: int
  refuses :: "path \<Rightarrow> nat \<Rightarrow> bool"
  journal :: "fs_op list"

text \<open>
  A JavaScript \<^verbatim>\<open>Error\<close>: its \<^verbatim>\<open>message\<close> and, for a file system error, its \<^verbatim>\<open>code\<close>. The
  program reads the \<^verbatim>\<open>code\<close> and copies the \<^verbatim>\<open>message\<close> into its results. The message of a file
  system error is kept up to the description: Node appends the system call and the path.
\<close>

datatype error = Error (message: string) (code: "string option")

definition ENOENT :: error where
  "ENOENT = Error ''ENOENT: no such file or directory'' (Some ''ENOENT'')"

definition EPERM :: error where
  "EPERM = Error ''EPERM: operation not permitted'' (Some ''EPERM'')"

text \<open>
  A module can use only the names it imports or declares and the globals of the runtime.
  Evaluating any other name throws a \<^verbatim>\<open>ReferenceError\<close>.
\<close>

definition ReferenceError :: "string \<Rightarrow> error" where
  "ReferenceError name = Error (name @ '' is not defined'') None"

text \<open>
  An async function takes the file system and returns how its promise settles (\<open>Inl\<close>
  rejected, \<open>Inr\<close> fulfilled) with the file system it leaves.
\<close>

type_synonym 'a promise = "fsys \<Rightarrow> (error + 'a) \<times> fsys"

definition resolve :: "'a \<Rightarrow> 'a promise" where
  "resolve x fs = (Inr x, fs)"

definition reject :: "error \<Rightarrow> 'a promise" where
  "reject e fs = (Inl e, fs)"

text \<open>\<^verbatim>\<open>const x = await m; ...\<close>\<close>

definition await :: "'a promise \<Rightarrow> ('a \<Rightarrow> 'b promise) \<Rightarrow> 'b promise" where
  "await m k fs = (case m fs of (Inl e, fs') \<Rightarrow> (Inl e, fs') | (Inr x, fs') \<Rightarrow> k x fs')"

text \<open>\<^verbatim>\<open>try { m } catch (error) { h }\<close>\<close>

definition try_catch :: "'a promise \<Rightarrow> (error \<Rightarrow> 'a promise) \<Rightarrow> 'a promise" where
  "try_catch m h fs = (case m fs of (Inl e, fs') \<Rightarrow> h e fs' | (Inr x, fs') \<Rightarrow> (Inr x, fs'))"

datatype 'a settlement = Fulfilled 'a | Rejected error

text \<open>One element of \<^verbatim>\<open>Promise.allSettled\<close>: the promise's outcome as a value.\<close>

definition settle :: "'a promise \<Rightarrow> fsys \<Rightarrow> 'a settlement \<times> fsys" where
  "settle m fs = (case m fs of (Inl e, fs') \<Rightarrow> (Rejected e, fs') | (Inr x, fs') \<Rightarrow> (Fulfilled x, fs'))"

fun allSettled :: "'a promise list \<Rightarrow> fsys \<Rightarrow> 'a settlement list \<times> fsys" where
  "allSettled [] fs = ([], fs)"
| "allSettled (m # ms) fs =
     (case settle m fs of (r, fs') \<Rightarrow>
        (case allSettled ms fs' of (rs, fs'') \<Rightarrow> (r # rs, fs'')))"

definition attempts :: "fsys \<Rightarrow> path \<Rightarrow> nat" where
  "attempts fs p = length (filter (\<lambda>ev. target ev = p) (journal fs))"

definition dir_exists :: "fsys \<Rightarrow> string \<Rightarrow> bool" where
  "dir_exists fs d = (List.member (dirs fs) d \<or> List.member (map (fst \<circ> fst) (files fs)) d)"

definition stat :: "path \<Rightarrow> file_entry promise" where
  "stat p fs = (case map_of (files fs) p of None \<Rightarrow> (Inl ENOENT, fs) | Some f \<Rightarrow> (Inr f, fs))"

definition readFile :: "path \<Rightarrow> byte list promise" where
  "readFile p fs =
     (case map_of (files fs) p of None \<Rightarrow> (Inl ENOENT, fs) | Some f \<Rightarrow> (Inr (content f), fs))"

definition access :: "string \<Rightarrow> unit promise" where
  "access d fs = (if dir_exists fs d then (Inr (), fs) else (Inl ENOENT, fs))"

definition readdir :: "string \<Rightarrow> string list promise" where
  "readdir d fs =
     (if dir_exists fs d
      then (Inr (map (snd \<circ> fst) (filter (\<lambda>e. fst (fst e) = d) (files fs))), fs)
      else (Inl ENOENT, fs))"

text \<open>\<^verbatim>\<open>fs.mkdir(d, { recursive: true })\<close>: no error when the directory exists.\<close>

definition mkdir :: "string \<Rightarrow> unit promise" where
  "mkdir d fs =
     (if dir_exists fs d then (Inr (), fs)
      else if refuses fs (d, []) (attempts fs (d, []))
      then (Inl EPERM, fs\<lparr> journal := journal fs @ [Mkdir d False] \<rparr>)
      else (Inr (), fs\<lparr> dirs := dirs fs @ [d], journal := journal fs @ [Mkdir d True] \<rparr>))"

definition writeFile :: "path \<Rightarrow> byte list \<Rightarrow> unit promise" where
  "writeFile p bytes fs =
     (if \<not> dir_exists fs (fst p)
      then (Inl ENOENT, fs\<lparr> journal := journal fs @ [WriteFile p bytes False] \<rparr>)
      else if refuses fs p (attempts fs p)
      then (Inl EPERM, fs\<lparr> journal := journal fs @ [WriteFile p bytes False] \<rparr>)
      else (Inr (),
            fs\<lparr> files := AList.update p \<lparr> content = bytes, mtimeMs = nowMs fs \<rparr> (files fs),
                journal := journal fs @ [WriteFile p bytes True] \<rparr>))"

definition unlink :: "path \<Rightarrow> unit promise" where
  "unlink p fs =
     (if map_of (files fs) p = None
      then (Inl ENOENT, fs\<lparr> journal := journal fs @ [Unlink p False] \<rparr>)
      else if refuses fs p (attempts fs p)
      then (Inl EPERM, fs\<lparr> journal := journal fs @ [Unlink p False] \<rparr>)
      else (Inr (),
            fs\<lparr> files := AList.delete p (files fs),
                journal := journal fs @ [Unlink p True] \<rparr>))"

definition file_exists :: "fsys \<Rightarrow> path \<Rightarrow> bool" where
  "file_exists fs p = (map_of (files fs) p \<noteq> None)"

text \<open>The modifications a call attempted: what it appended to the journal.\<close>

definition new_ops :: "fsys \<Rightarrow> fsys \<Rightarrow> fs_op list" where
  "new_ops fs fs' = drop (length (journal fs)) (journal fs')"

text \<open>The file system after a write that succeeded, and after an attempt that was refused.\<close>

definition wrote :: "path \<Rightarrow> byte list \<Rightarrow> fsys \<Rightarrow> fsys" where
  "wrote p b fs = fs\<lparr> files := AList.update p \<lparr> content = b, mtimeMs = nowMs fs \<rparr> (files fs),
                       journal := journal fs @ [WriteFile p b True] \<rparr>"

definition denied :: "fs_op \<Rightarrow> fsys \<Rightarrow> fsys" where
  "denied ev fs = fs\<lparr> journal := journal fs @ [ev] \<rparr>"

section \<open>CosmicCleanup (cleanup.js)\<close>

subsection \<open>secureWipe\<close>

datatype wipe_result = WipeDone nat nat | WipeFailed string

text \<open>The \<^verbatim>\<open>for\<close> loop of \<^verbatim>\<open>secureWipe\<close>, from pass \<open>i\<close> on; it stops at the first write that throws.\<close>

function overwrite_passes :: "path \<Rightarrow> byte list list \<Rightarrow> nat \<Rightarrow> nat \<Rightarrow> unit promise" where
  "overwrite_passes filePath patterns passes i =
     (if i < passes
      then await (writeFile filePath (patterns ! (i mod length patterns)))
             (\<lambda>_. overwrite_passes filePath patterns passes (Suc i))
      else resolve ())"
  by pat_completeness auto
termination
  by (relation "measure (\<lambda>(filePath, patterns, passes, i). passes - i)") auto

declare overwrite_passes.simps [simp del]

text \<open>
  \<open>randomByte\<close> is what the expression \<^verbatim>\<open>crypto.randomBytes(1)[0]\<close> evaluates to: a byte, or
  an error thrown (\<open>Inl\<close>). It is evaluated after \<^verbatim>\<open>stat\<close> and before the first write. The
  three patterns have the length of the file, and \<open>i mod 3\<close> is always an index of the array.
\<close>

definition secureWipe :: "path \<Rightarrow> nat \<Rightarrow> error + byte \<Rightarrow> fsys \<Rightarrow> wipe_result \<times> fsys" where
  "secureWipe filePath passes randomByte fs =
     (case await (stat filePath) (\<lambda>stats.
             let fileSize = length (content stats)
             in (case randomByte of
                   Inl e \<Rightarrow> reject e
                 | Inr random \<Rightarrow>
                     let patterns = [replicate fileSize 0x00, replicate fileSize 0xFF,
                                     replicate fileSize random]
                     in await (overwrite_passes filePath patterns passes 0) (\<lambda>_.
                        await (unlink filePath) (\<lambda>_.
                        resolve (WipeDone passes fileSize))))) fs of
        (Inr r, fs') \<Rightarrow> (r, fs')
      | (Inl e, fs') \<Rightarrow> (WipeFailed (message e), fs'))"

text \<open>
  \<^verbatim>\<open>cleanup.js\<close> imports \<^verbatim>\<open>fs/promises\<close>, \<^verbatim>\<open>path\<close>, \<^verbatim>\<open>worker_threads\<close> and \<^verbatim>\<open>node-cron\<close>. It does not
  import \<^verbatim>\<open>crypto\<close>, and nothing in the repository sets a global of that name. On a runtime
  with no global \<^verbatim>\<open>crypto\<close> the expression throws a \<^verbatim>\<open>ReferenceError\<close>. On a runtime whose
  global \<^verbatim>\<open>crypto\<close> is the Web Crypto object (\<open>webCrypto\<close>), that object has no \<^verbatim>\<open>randomBytes\<close>
  and the call throws a \<^verbatim>\<open>TypeError\<close>. This is the value \<^verbatim>\<open>secureWipe\<close> gets in this module.
\<close>

definition crypto_randomBytes :: "bool \<Rightarrow> error + byte" where
  "crypto_randomBytes webCrypto =
     Inl (if webCrypto then Error ''crypto.randomBytes is not a function'' None
          else ReferenceError ''crypto'')"

lemma map_of_dir_member:
  "map_of al p = Some f \<Longrightarrow> List.member (map (fst \<circ> fst) al) (fst p)"
  by (induction al) (auto split: if_splits)

lemma file_dir_exists: "map_of (files fs) p = Some f \<Longrightarrow> dir_exists fs (fst p)"
  using map_of_dir_member [of "files fs" p f] by (simp add: dir_exists_def)

lemma overwrite_passes_more:
  "i < passes \<Longrightarrow>
   overwrite_passes p pats passes i =
     await (writeFile p (pats ! (i mod length pats))) (\<lambda>_. overwrite_passes p pats passes (Suc i))"
  by (subst overwrite_passes.simps) simp

lemma overwrite_passes_done:
  "\<not> i < passes \<Longrightarrow> overwrite_passes p pats passes i = resolve ()"
  by (subst overwrite_passes.simps) simp

lemma overwrite_passes_3:
  "overwrite_passes p [a, b, c] 3 0 =
     await (writeFile p a) (\<lambda>_. await (writeFile p b) (\<lambda>_. await (writeFile p c) (\<lambda>_. resolve ())))"
proof -
  have d: "overwrite_passes p [a, b, c] 3 3 = resolve ()"
    by (rule overwrite_passes_done) simp
  have "overwrite_passes p [a, b, c] 3 2 =
          await (writeFile p ([a, b, c] ! (2 mod length [a, b, c])))
            (\<lambda>_. overwrite_passes p [a, b, c] 3 (Suc 2))"
    by (rule overwrite_passes_more) simp
  also have "Suc 2 = 3" by simp
  finally have s2: "overwrite_passes p [a, b, c] 3 2 = await (writeFile p c) (\<lambda>_. resolve ())"
    by (simp add: d)
  have "overwrite_passes p [a, b, c] 3 (Suc 0) =
          await (writeFile p ([a, b, c] ! (Suc 0 mod length [a, b, c])))
            (\<lambda>_. overwrite_passes p [a, b, c] 3 (Suc (Suc 0)))"
    by (rule overwrite_passes_more) simp
  also have "Suc (Suc 0) = 2" by simp
  finally have s1: "overwrite_passes p [a, b, c] 3 (Suc 0) =
                      await (writeFile p b) (\<lambda>_. await (writeFile p c) (\<lambda>_. resolve ()))"
    by (simp add: s2)
  have "overwrite_passes p [a, b, c] 3 0 =
          await (writeFile p ([a, b, c] ! (0 mod length [a, b, c])))
            (\<lambda>_. overwrite_passes p [a, b, c] 3 (Suc 0))"
    by (rule overwrite_passes_more) simp
  then show ?thesis
    by (simp add: s1)
qed

lemma writeFile_existing:
  "map_of (files fs) p = Some f \<Longrightarrow>
   writeFile p b fs =
     (if refuses fs p (attempts fs p)
      then (Inl EPERM, fs\<lparr> journal := journal fs @ [WriteFile p b False] \<rparr>)
      else (Inr (), fs\<lparr> files := AList.update p \<lparr> content = b, mtimeMs = nowMs fs \<rparr> (files fs),
                        journal := journal fs @ [WriteFile p b True] \<rparr>))"
  by (simp add: writeFile_def file_dir_exists)

lemma writeFile_step:
  assumes "map_of (files fs) p \<noteq> None"
  shows "writeFile p b fs =
     (if refuses fs p (attempts fs p)
      then (Inl EPERM, fs\<lparr> journal := journal fs @ [WriteFile p b False] \<rparr>)
      else (Inr (), fs\<lparr> files := AList.update p \<lparr> content = b, mtimeMs = nowMs fs \<rparr> (files fs),
                        journal := journal fs @ [WriteFile p b True] \<rparr>))"
  using assms writeFile_existing by blast

lemma unlink_cases:
  assumes "map_of (files fs) p \<noteq> None"
  shows "unlink p fs =
     (if refuses fs p (attempts fs p) then (Inl EPERM, denied (Unlink p False) fs)
      else (Inr (), fs\<lparr> files := AList.delete p (files fs), journal := journal fs @ [Unlink p True] \<rparr>))"
  using assms unfolding unlink_def denied_def by (simp only: if_False)

lemma wrote_facts [simp]:
  "map_of (files (wrote p b fs)) p \<noteq> None"
  "attempts (wrote p b fs) p = Suc (attempts fs p)"
  "refuses (wrote p b fs) = refuses fs"
  "journal (wrote p b fs) = journal fs @ [WriteFile p b True]"
  by (simp_all add: wrote_def attempts_def AList.update_conv')

lemma writeFile_cases:
  assumes "map_of (files fs) p \<noteq> None"
  shows "writeFile p b fs =
     (if refuses fs p (attempts fs p) then (Inl EPERM, denied (WriteFile p b False) fs)
      else (Inr (), wrote p b fs))"
  using writeFile_step [OF assms] by (simp add: wrote_def denied_def)

lemma secureWipe_eval:
  assumes ex: "map_of (files fs) p = Some f"
  defines "n \<equiv> length (content f)" and "a \<equiv> attempts fs p"
  defines "fs1 \<equiv> wrote p (replicate n 0x00) fs"
  defines "fs2 \<equiv> wrote p (replicate n 0xFF) fs1"
  shows "secureWipe p 3 (Inr r) fs =
     (if refuses fs p a then (WipeFailed (message EPERM), denied (WriteFile p (replicate n 0x00) False) fs)
      else if refuses fs p (Suc a) then (WipeFailed (message EPERM), denied (WriteFile p (replicate n 0xFF) False) fs1)
      else if refuses fs p (Suc (Suc a)) then (WipeFailed (message EPERM), denied (WriteFile p (replicate n r) False) fs2)
      else if refuses fs p (Suc (Suc (Suc a))) then (WipeFailed (message EPERM), denied (Unlink p False) (wrote p (replicate n r) fs2))
      else (WipeDone 3 n, (wrote p (replicate n r) fs2)\<lparr> files := AList.delete p (files (wrote p (replicate n r) fs2)),
               journal := journal (wrote p (replicate n r) fs2) @ [Unlink p True] \<rparr>))"
proof -
  have e0: "map_of (files fs) p \<noteq> None" using ex by simp
  have w0: "writeFile p (replicate n 0x00) fs =
     (if refuses fs p a then (Inl EPERM, denied (WriteFile p (replicate n 0x00) False) fs) else (Inr (), fs1))"
    unfolding a_def fs1_def by (rule writeFile_cases [OF e0])
  have w1: "writeFile p (replicate n 0xFF) fs1 =
     (if refuses fs p (Suc a) then (Inl EPERM, denied (WriteFile p (replicate n 0xFF) False) fs1) else (Inr (), fs2))"
    using writeFile_cases [of fs1 p "replicate n 0xFF"] by (simp add: fs1_def fs2_def a_def)
  have w2: "writeFile p (replicate n r) fs2 =
     (if refuses fs p (Suc (Suc a)) then (Inl EPERM, denied (WriteFile p (replicate n r) False) fs2)
      else (Inr (), wrote p (replicate n r) fs2))"
    using writeFile_cases [of fs2 p "replicate n r"] by (simp add: fs1_def fs2_def a_def)
  have u: "unlink p (wrote p (replicate n r) fs2) =
     (if refuses fs p (Suc (Suc (Suc a))) then (Inl EPERM, denied (Unlink p False) (wrote p (replicate n r) fs2))
      else (Inr (), (wrote p (replicate n r) fs2)\<lparr> files := AList.delete p (files (wrote p (replicate n r) fs2)),
               journal := journal (wrote p (replicate n r) fs2) @ [Unlink p True] \<rparr>))"
    using unlink_cases [of "wrote p (replicate n r) fs2" p] by (simp add: fs1_def fs2_def a_def)
  show ?thesis
    using ex
    by (simp add: secureWipe_def await_def stat_def overwrite_passes_3 Let_def resolve_def
          n_def [symmetric] w0 w1 w2 u)
qed

lemma new_ops_append: "journal fs' = journal fs @ xs \<Longrightarrow> new_ops fs fs' = xs"
  by (simp add: new_ops_def)

lemma secureWipe_summary:
  assumes ex: "map_of (files fs) p = Some f"
    and run: "secureWipe p 3 (Inr r) fs = (res, fs')"
  defines "n \<equiv> length (content f)" and "a \<equiv> attempts fs p"
  shows "new_ops fs fs' =
           (if refuses fs p a then [WriteFile p (replicate n 0x00) False]
            else if refuses fs p (Suc a)
              then [WriteFile p (replicate n 0x00) True, WriteFile p (replicate n 0xFF) False]
            else if refuses fs p (Suc (Suc a))
              then [WriteFile p (replicate n 0x00) True, WriteFile p (replicate n 0xFF) True,
                    WriteFile p (replicate n r) False]
            else [WriteFile p (replicate n 0x00) True, WriteFile p (replicate n 0xFF) True,
                  WriteFile p (replicate n r) True, Unlink p (\<not> refuses fs p (Suc (Suc (Suc a))))])"
    and "res = (if refuses fs p a \<or> refuses fs p (Suc a) \<or> refuses fs p (Suc (Suc a))
                     \<or> refuses fs p (Suc (Suc (Suc a)))
                then WipeFailed (message EPERM) else WipeDone 3 n)"
    and "file_exists fs' p = (refuses fs p a \<or> refuses fs p (Suc a) \<or> refuses fs p (Suc (Suc a))
                     \<or> refuses fs p (Suc (Suc (Suc a))))"
proof -
  note ev = secureWipe_eval [OF ex, of r, folded n_def a_def, unfolded run]
  show "new_ops fs fs' =
           (if refuses fs p a then [WriteFile p (replicate n 0x00) False]
            else if refuses fs p (Suc a)
              then [WriteFile p (replicate n 0x00) True, WriteFile p (replicate n 0xFF) False]
            else if refuses fs p (Suc (Suc a))
              then [WriteFile p (replicate n 0x00) True, WriteFile p (replicate n 0xFF) True,
                    WriteFile p (replicate n r) False]
            else [WriteFile p (replicate n 0x00) True, WriteFile p (replicate n 0xFF) True,
                  WriteFile p (replicate n r) True, Unlink p (\<not> refuses fs p (Suc (Suc (Suc a))))])"
    using ev by (auto intro!: new_ops_append simp: denied_def split: if_splits)
  show "res = (if refuses fs p a \<or> refuses fs p (Suc a) \<or> refuses fs p (Suc (Suc a))
                     \<or> refuses fs p (Suc (Suc (Suc a)))
                then WipeFailed (message EPERM) else WipeDone 3 n)"
    using ev by (auto split: if_splits)
  show "file_exists fs' p = (refuses fs p a \<or> refuses fs p (Suc a) \<or> refuses fs p (Suc (Suc a))
                     \<or> refuses fs p (Suc (Suc (Suc a))))"
    using ev ex
    by (auto simp: file_exists_def denied_def wrote_def AList.update_conv' AList.delete_conv'
          split: if_splits)
qed

text \<open>
  Had the expression yielded a byte, \<^verbatim>\<open>secureWipe(path, 3)\<close> on an existing file of \<open>n\<close>
  bytes would write \<open>n\<close> zero bytes, \<open>n\<close> bytes \<open>0xFF\<close> and \<open>n\<close> copies of that byte, in this
  order, and only then unlink the file; a refused write would end the call with a failure,
  the file still there and no unlink attempted.
\<close>

lemma secureWipe_with_random_byte:
  fixes randomByte :: "error + byte"
  assumes ex: "map_of (files fs) p = Some f"
  defines "n \<equiv> length (content f)" and "a \<equiv> attempts fs p"
  defines "res \<equiv> fst (secureWipe p 3 randomByte fs)"
    and "ops \<equiv> new_ops fs (snd (secureWipe p 3 randomByte fs))"
    and "still \<equiv> file_exists (snd (secureWipe p 3 randomByte fs)) p"
  shows "(\<forall>r. randomByte = Inr r \<and> \<not> refuses fs p a \<and> \<not> refuses fs p (a + 1)
              \<and> \<not> refuses fs p (a + 2) \<longrightarrow>
            ops = [WriteFile p (replicate n 0x00) True, WriteFile p (replicate n 0xFF) True,
                   WriteFile p (replicate n r) True, Unlink p (\<not> refuses fs p (a + 3))]
            \<and> (res = WipeDone 3 n) = (\<not> refuses fs p (a + 3))
            \<and> still = refuses fs p (a + 3))
       \<and> ((\<exists>bytes. WriteFile p bytes False \<in> set ops) \<longrightarrow>
            (\<exists>msg. res = WipeFailed msg) \<and> still \<and> (\<forall>ok. Unlink p ok \<notin> set ops))
       \<and> (\<forall>ok. Unlink p ok \<in> set ops \<longrightarrow>
            (\<exists>r. take 3 ops =
              [WriteFile p (replicate n 0x00) True, WriteFile p (replicate n 0xFF) True,
               WriteFile p (replicate n r) True]))"
proof (cases randomByte)
  case (Inl e)
  have "secureWipe p 3 randomByte fs = (WipeFailed (message e), fs)"
    using ex Inl by (simp add: secureWipe_def await_def stat_def reject_def Let_def)
  then show ?thesis
    using Inl by (simp add: ops_def new_ops_def)
next
  case (Inr r)
  obtain res0 fs' where run: "secureWipe p 3 (Inr r) fs = (res0, fs')"
    by (cases "secureWipe p 3 (Inr r) fs")
  note sm = secureWipe_summary [OF ex run, folded n_def a_def]
  have r: "res = res0" and o: "ops = new_ops fs fs'" and s: "still = file_exists fs' p"
    using run Inr by (simp_all add: res_def ops_def still_def)
  have c1: "\<forall>r'. randomByte = Inr r' \<and> \<not> refuses fs p a \<and> \<not> refuses fs p (a + 1)
              \<and> \<not> refuses fs p (a + 2) \<longrightarrow>
            ops = [WriteFile p (replicate n 0x00) True, WriteFile p (replicate n 0xFF) True,
                   WriteFile p (replicate n r') True, Unlink p (\<not> refuses fs p (a + 3))]
            \<and> (res = WipeDone 3 n) = (\<not> refuses fs p (a + 3))
            \<and> still = refuses fs p (a + 3)"
    using Inr sm by (simp add: r o s numeral_3_eq_3)
  have c2: "(\<exists>bytes. WriteFile p bytes False \<in> set ops) \<longrightarrow>
            (\<exists>msg. res = WipeFailed msg) \<and> still \<and> (\<forall>ok. Unlink p ok \<notin> set ops)"
    unfolding r o s sm by (simp split: if_splits)
  have c3: "\<forall>ok. Unlink p ok \<in> set ops \<longrightarrow>
            (\<exists>r. take 3 ops =
              [WriteFile p (replicate n 0x00) True, WriteFile p (replicate n 0xFF) True,
               WriteFile p (replicate n r) True])"
    unfolding o sm(1) by (simp split: if_splits)
  from c1 c2 c3 show ?thesis by blast
qed

definition wipe_fs :: fsys where
  "wipe_fs = \<lparr> dirs = [''/tmp/secure''],
               files = [((''/tmp/secure'', ''a''), \<lparr> content = [1, 2, 3], mtimeMs = 5 \<rparr>)],
               nowMs = 100, refuses = (\<lambda>p k. False), journal = [] \<rparr>"

text \<open>
  C5. In this module the random pattern cannot be built: \<^verbatim>\<open>crypto.randomBytes\<close> throws while
  the array of patterns is made, before the loop. So every call of \<^verbatim>\<open>secureWipe\<close>, for every
  path, number of passes and file system, returns a failure and leaves the file system as
  it was: no byte is overwritten and nothing is unlinked. For the file \<^verbatim>\<open>/tmp/secure/a\<close> with
  the bytes 1, 2, 3 the call \<^verbatim>\<open>secureWipe(path, 3)\<close> returns the failure with the message of
  the \<^verbatim>\<open>ReferenceError\<close>, and the file still holds 1, 2, 3.
\<close>

theorem secureWipe_never_overwrites:
  "snd (secureWipe p passes (crypto_randomBytes webCrypto) fs) = fs
   \<and> (\<exists>msg. fst (secureWipe p passes (crypto_randomBytes webCrypto) fs) = WipeFailed msg)
   \<and> secureWipe (''/tmp/secure'', ''a'') 3 (crypto_randomBytes False) wipe_fs
       = (WipeFailed ''crypto is not defined'', wipe_fs)
   \<and> map_of (files wipe_fs) (''/tmp/secure'', ''a'') = Some \<lparr> content = [1, 2, 3], mtimeMs = 5 \<rparr>"
proof -
  have run: "secureWipe p passes (crypto_randomBytes webCrypto) fs =
               (WipeFailed (message (case map_of (files fs) p of
                                       None \<Rightarrow> ENOENT
                                     | Some f \<Rightarrow> (if webCrypto
                                                  then Error ''crypto.randomBytes is not a function'' None
                                                  else ReferenceError ''crypto''))), fs)"
    for p passes webCrypto fs
    by (simp add: secureWipe_def crypto_randomBytes_def await_def stat_def reject_def Let_def
          split: option.splits)
  have ex: "map_of (files wipe_fs) (''/tmp/secure'', ''a'') = Some \<lparr> content = [1, 2, 3], mtimeMs = 5 \<rparr>"
    by (simp add: wipe_fs_def)
  have "secureWipe (''/tmp/secure'', ''a'') 3 (crypto_randomBytes False) wipe_fs
          = (WipeFailed ''crypto is not defined'', wipe_fs)"
    unfolding run by (simp add: ex ReferenceError_def)
  then show ?thesis
    using ex by (simp add: run)
qed

subsection \<open>cleanDirectory\<close>

datatype deletion = Deleted string | NotExpired string

record clean_report =
  totalFiles :: nat
  deleted :: nat
  failed :: nat
  details :: "(error + deletion) list"

datatype clean_result = Swept clean_report | DirectoryMissing string

text \<open>
  The callback of \<^verbatim>\<open>files.map\<close>. Every callback runs up to its first \<^verbatim>\<open>await\<close> when it is
  called, so all \<^verbatim>\<open>stat\<close> calls are issued on the directory as it was read; \<open>stats\<close> is the
  outcome of that call, and the rest of the callback runs when it has settled.
\<close>

definition expire_file :: "string \<Rightarrow> int \<Rightarrow> string \<Rightarrow> error + file_entry \<Rightarrow> deletion promise" where
  "expire_file directory cutoff file stats =
     (case stats of
        Inl e \<Rightarrow> reject e
      | Inr st \<Rightarrow>
          if mtimeMs st < cutoff
          then await (unlink (directory, file)) (\<lambda>_. resolve (Deleted file))
          else resolve (NotExpired file))"

fun is_deleted :: "deletion settlement \<Rightarrow> bool" where
  "is_deleted (Fulfilled (Deleted f)) = True"
| "is_deleted r = False"

fun is_rejected :: "'a settlement \<Rightarrow> bool" where
  "is_rejected (Rejected e) = True"
| "is_rejected r = False"

fun detail :: "'a settlement \<Rightarrow> error + 'a" where
  "detail (Fulfilled v) = Inr v"
| "detail (Rejected e) = Inl e"

text \<open>The parameter \<^verbatim>\<open>maxAgeHours = 24\<close>: \<open>None\<close> is a call without the argument.\<close>

definition default_arg :: "'a \<Rightarrow> 'a option \<Rightarrow> 'a" where
  "default_arg d arg = (case arg of None \<Rightarrow> d | Some v \<Rightarrow> v)"

definition cleanDirectory :: "string \<Rightarrow> int option \<Rightarrow> clean_result promise" where
  "cleanDirectory directory maxAgeHours =
     try_catch
       (await (access directory) (\<lambda>_.
        await (readdir directory) (\<lambda>names fs.
          let now = nowMs fs;
              cutoff = now - default_arg 24 maxAgeHours * 60 * 60 * 1000;
              tasks = map (\<lambda>file. expire_file directory cutoff file
                                     (fst (stat (directory, file) fs))) names
          in (case allSettled tasks fs of (deletionResults, fs') \<Rightarrow>
                (Inr (Swept \<lparr> totalFiles = length names,
                              deleted = length (filter is_deleted deletionResults),
                              failed = length (filter is_rejected deletionResults),
                              details = map detail deletionResults \<rparr>), fs')))))
       (\<lambda>error. if code error = Some ''ENOENT''
                 then resolve (DirectoryMissing directory)
                 else reject error)"

text \<open>What the callback for entry \<open>n\<close> settles to, read off the directory as it was listed.\<close>

definition sweep_outcome :: "fsys \<Rightarrow> string \<Rightarrow> int \<Rightarrow> string \<Rightarrow> deletion settlement" where
  "sweep_outcome fs d cutoff n =
     (case map_of (files fs) (d, n) of
        None \<Rightarrow> Rejected ENOENT
      | Some fl \<Rightarrow>
          if mtimeMs fl < cutoff
          then (if refuses fs (d, n) (attempts fs (d, n)) then Rejected EPERM
                else Fulfilled (Deleted n))
          else Fulfilled (NotExpired n))"

definition agrees :: "fsys \<Rightarrow> fsys \<Rightarrow> path \<Rightarrow> bool" where
  "agrees fs fs0 p = (map_of (files fs) p = map_of (files fs0) p \<and> attempts fs p = attempts fs0 p)"

definition after_expire :: "fsys \<Rightarrow> string \<Rightarrow> int \<Rightarrow> string \<Rightarrow> fsys \<Rightarrow> fsys" where
  "after_expire fs0 d cutoff n fs =
     (case sweep_outcome fs0 d cutoff n of
        Fulfilled (Deleted m) \<Rightarrow>
          fs\<lparr> files := AList.delete (d, n) (files fs), journal := journal fs @ [Unlink (d, n) True] \<rparr>
      | Fulfilled (NotExpired m) \<Rightarrow> fs
      | Rejected e \<Rightarrow> if map_of (files fs0) (d, n) = None then fs else denied (Unlink (d, n) False) fs)"

lemma settle_expire_file:
  assumes "agrees fs fs0 (d, n)" and "refuses fs = refuses fs0"
  shows "settle (expire_file d cutoff n (fst (stat (d, n) fs0))) fs =
           (sweep_outcome fs0 d cutoff n, after_expire fs0 d cutoff n fs)"
  using assms
  by (simp add: settle_def expire_file_def stat_def sweep_outcome_def agrees_def reject_def resolve_def
        await_def unlink_def denied_def after_expire_def split: option.splits)

lemma after_expire_refuses [simp]: "refuses (after_expire fs0 d cutoff n fs) = refuses fs"
  by (simp add: after_expire_def denied_def split: settlement.splits deletion.splits)

lemma after_expire_agrees:
  assumes "p \<noteq> (d, n)" and "agrees fs fs0 p"
  shows "agrees (after_expire fs0 d cutoff n fs) fs0 p"
  using assms
  by (simp add: after_expire_def denied_def agrees_def attempts_def AList.delete_conv'
        split: settlement.splits deletion.splits)

lemma after_expire_files:
  "map_of (files (after_expire fs0 d cutoff n fs)) p =
     (if p = (d, n) \<and> sweep_outcome fs0 d cutoff n = Fulfilled (Deleted n)
      then None else map_of (files fs) p)"
  by (auto simp add: after_expire_def denied_def AList.delete_conv' sweep_outcome_def
        split: settlement.splits deletion.splits option.splits if_splits)

definition expire_tasks :: "fsys \<Rightarrow> string \<Rightarrow> int \<Rightarrow> string list \<Rightarrow> deletion promise list" where
  "expire_tasks fs0 d cutoff ns = map (\<lambda>n. expire_file d cutoff n (fst (stat (d, n) fs0))) ns"

lemma allSettled_expire:
  assumes "distinct ns" and "\<forall>n \<in> set ns. agrees fs fs0 (d, n)" and "refuses fs = refuses fs0"
  shows "fst (allSettled (expire_tasks fs0 d cutoff ns) fs) = map (sweep_outcome fs0 d cutoff) ns
       \<and> (\<forall>p. map_of (files (snd (allSettled (expire_tasks fs0 d cutoff ns) fs))) p =
            (if p \<in> (\<lambda>n. (d, n)) ` {n \<in> set ns. sweep_outcome fs0 d cutoff n = Fulfilled (Deleted n)}
             then None else map_of (files fs) p))"
  using assms
proof (induction ns arbitrary: fs)
  case Nil
  then show ?case by (simp add: expire_tasks_def)
next
  case (Cons n ns)
  let ?fs1 = "after_expire fs0 d cutoff n fs"
  have st: "settle (expire_file d cutoff n (fst (stat (d, n) fs0))) fs =
              (sweep_outcome fs0 d cutoff n, ?fs1)"
    using Cons.prems by (intro settle_expire_file) simp_all
  have ag: "\<forall>m \<in> set ns. agrees ?fs1 fs0 (d, m)"
    using Cons.prems by (auto intro!: after_expire_agrees)
  have rf: "refuses ?fs1 = refuses fs0"
    using Cons.prems by simp
  have dn: "distinct ns" using Cons.prems by simp
  note IH = Cons.IH [OF dn ag rf]
  obtain rs fs2 where rest: "allSettled (expire_tasks fs0 d cutoff ns) ?fs1 = (rs, fs2)"
    by (cases "allSettled (expire_tasks fs0 d cutoff ns) ?fs1")
  have whole: "allSettled (expire_tasks fs0 d cutoff (n # ns)) fs = (sweep_outcome fs0 d cutoff n # rs, fs2)"
    using st rest by (simp add: expire_tasks_def)
  have rs: "rs = map (sweep_outcome fs0 d cutoff) ns"
    using IH rest by simp
  have f2: "\<And>p. map_of (files fs2) p =
            (if p \<in> (\<lambda>n. (d, n)) ` {n \<in> set ns. sweep_outcome fs0 d cutoff n = Fulfilled (Deleted n)}
             then None else map_of (files ?fs1) p)"
    using IH rest by (simp del: split_paired_All)
  show ?case
    unfolding whole
    by (auto simp add: rs f2 after_expire_files)
qed

definition listing :: "fsys \<Rightarrow> string \<Rightarrow> string list" where
  "listing fs d = map (snd \<circ> fst) (filter (\<lambda>e. fst (fst e) = d) (files fs))"

lemma listing_distinct:
  "distinct (map fst (files fs)) \<Longrightarrow> distinct (listing fs d)"
proof -
  assume dist: "distinct (map fst (files fs))"
  have "distinct (map fst (filter (\<lambda>e. fst (fst e) = d) (files fs)))"
    using dist by (rule distinct_map_filter)
  moreover have "inj_on snd (set (map fst (filter (\<lambda>e. fst (fst e) = d) (files fs))))"
    by (auto simp: inj_on_def)
  ultimately have "distinct (map snd (map fst (filter (\<lambda>e. fst (fst e) = d) (files fs))))"
    by (simp only: distinct_map)
  then show ?thesis
    by (simp add: listing_def)
qed

lemma listing_member:
  "map_of (files fs) (d, n) = Some fl \<Longrightarrow> n \<in> set (listing fs d)"
  by (force simp: listing_def dest: map_of_SomeD)

lemma cleanDirectory_eval:
  assumes "dir_exists fs d"
  shows "cleanDirectory d h fs =
     (let cutoff = nowMs fs - default_arg 24 h * 60 * 60 * 1000;
          out = allSettled (expire_tasks fs d cutoff (listing fs d)) fs
      in (Inr (Swept \<lparr> totalFiles = length (listing fs d),
                        deleted = length (filter is_deleted (fst out)),
                        failed = length (filter is_rejected (fst out)),
                        details = map detail (fst out) \<rparr>), snd out))"
  using assms
  by (simp add: cleanDirectory_def try_catch_def await_def access_def readdir_def Let_def
        expire_tasks_def listing_def split: prod.splits)

lemma sweep_outcome_member:
  "n \<in> set ns \<Longrightarrow> sweep_outcome fs d cutoff n \<in> set (map (sweep_outcome fs d cutoff) ns)"
  by simp

text \<open>
  C7. One call of \<^verbatim>\<open>cleanDirectory\<close> on a directory that holds the file \<open>name\<close>, with the file
  table free of duplicate paths. The call returns a report and never throws. The file is
  gone afterwards when its age (\<open>now - mtimeMs\<close>) exceeds the maximum (24 hours when the
  argument is omitted) and its unlink is not refused, and it is kept unchanged when its age
  does not exceed the maximum. When its unlink is refused the file stays, the report lists
  the error and counts it as failed; since the first two statements hold for every file
  whatever happens to the others, such a failure does not stop the other deletions.
\<close>

theorem cleanDirectory_age_sweep:
  fixes maxAgeHours :: "int option"
  assumes wf: "distinct (map fst (files fs))"
    and ex: "map_of (files fs) (d, name) = Some fl"
  defines "age \<equiv> nowMs fs - mtimeMs fl"
    and "maxAge \<equiv> default_arg 24 maxAgeHours * 60 * 60 * 1000"
    and "refused \<equiv> refuses fs (d, name) (attempts fs (d, name))"
    and "fs' \<equiv> snd (cleanDirectory d maxAgeHours fs)"
  shows "\<exists>report. fst (cleanDirectory d maxAgeHours fs) = Inr (Swept report)
           \<and> (maxAge < age \<and> \<not> refused \<longrightarrow> \<not> file_exists fs' (d, name))
           \<and> (\<not> maxAge < age \<longrightarrow> map_of (files fs') (d, name) = Some fl)
           \<and> (maxAge < age \<and> refused \<longrightarrow>
                map_of (files fs') (d, name) = Some fl
                \<and> Inl EPERM \<in> set (details report) \<and> 0 < failed report)"
proof -
  define cutoff where "cutoff = nowMs fs - maxAge"
  define out where "out = allSettled (expire_tasks fs d cutoff (listing fs d)) fs"
  define report where
    "report = \<lparr> totalFiles = length (listing fs d),
                 deleted = length (filter is_deleted (fst out)),
                 failed = length (filter is_rejected (fst out)),
                 details = map detail (fst out) \<rparr>"
  have de: "dir_exists fs d"
    using file_dir_exists [OF ex] by simp
  have ev: "cleanDirectory d maxAgeHours fs = (Inr (Swept report), snd out)"
    using cleanDirectory_eval [OF de, of maxAgeHours]
    by (simp add: Let_def report_def out_def cutoff_def maxAge_def)
  have mem: "name \<in> set (listing fs d)"
    using ex by (rule listing_member)
  have ag: "\<forall>n \<in> set (listing fs d). agrees fs fs (d, n)"
    by (simp add: agrees_def)
  note all = allSettled_expire [OF listing_distinct [OF wf] ag refl, of cutoff, folded out_def]
  have outs: "fst out = map (sweep_outcome fs d cutoff) (listing fs d)"
    using all by simp
  have fls: "map_of (files (snd out)) (d, name) =
               (if sweep_outcome fs d cutoff name = Fulfilled (Deleted name) then None
                else map_of (files fs) (d, name))"
    using all mem by auto
  have expired: "(mtimeMs fl < cutoff) = (maxAge < age)"
    by (auto simp: cutoff_def age_def)
  have oc: "sweep_outcome fs d cutoff name =
              (if maxAge < age then (if refused then Rejected EPERM else Fulfilled (Deleted name))
               else Fulfilled (NotExpired name))"
    using ex by (simp add: sweep_outcome_def expired refused_def)
  have f': "fs' = snd out"
    by (simp add: fs'_def ev)
  have c1: "maxAge < age \<and> \<not> refused \<longrightarrow> \<not> file_exists fs' (d, name)"
    by (simp add: f' fls oc file_exists_def)
  have c2: "\<not> maxAge < age \<longrightarrow> map_of (files fs') (d, name) = Some fl"
    by (simp add: f' fls oc ex)
  have c3: "maxAge < age \<and> refused \<longrightarrow>
                map_of (files fs') (d, name) = Some fl
                \<and> Inl EPERM \<in> set (details report) \<and> 0 < failed report"
  proof
    assume h: "maxAge < age \<and> refused"
    then have rej: "sweep_outcome fs d cutoff name = Rejected EPERM"
      by (simp add: oc)
    have in_out: "Rejected EPERM \<in> set (fst out)"
      using sweep_outcome_member [OF mem, of fs d cutoff] by (simp add: outs rej)
    have "detail (Rejected EPERM :: deletion settlement) \<in> detail ` set (fst out)"
      using in_out by (rule imageI)
    then have d: "Inl EPERM \<in> set (details report)"
      by (simp add: report_def)
    have "filter is_rejected (fst out) \<noteq> []"
      using in_out by (auto simp: filter_empty_conv intro!: bexI [of _ "Rejected EPERM"])
    then have f: "0 < failed report"
      by (simp add: report_def)
    from h d f show "map_of (files fs') (d, name) = Some fl
                \<and> Inl EPERM \<in> set (details report) \<and> 0 < failed report"
      by (simp add: f' fls oc ex)
  qed
  from ev c1 c2 c3 show ?thesis
    by auto
qed

definition sweep_fs :: fsys where
  "sweep_fs = \<lparr> dirs = [''/tmp/uploads''],
                files = [((''/tmp/uploads'', ''stuck''), \<lparr> content = [1], mtimeMs = 0 \<rparr>),
                         ((''/tmp/uploads'', ''old''), \<lparr> content = [2], mtimeMs = 0 \<rparr>),
                         ((''/tmp/uploads'', ''new''), \<lparr> content = [3], mtimeMs = 90000000 \<rparr>)],
                nowMs = 100000000,
                refuses = (\<lambda>p k. p = (''/tmp/uploads'', ''stuck'')),
                journal = [] \<rparr>"

theorem cleanDirectory_age_sweep_witness:
  "distinct (map fst (files sweep_fs))
   \<and> map_of (files sweep_fs) (''/tmp/uploads'', ''old'') = Some \<lparr> content = [2], mtimeMs = 0 \<rparr>
   \<and> \<not> file_exists (snd (cleanDirectory ''/tmp/uploads'' None sweep_fs)) (''/tmp/uploads'', ''old'')
   \<and> map_of (files (snd (cleanDirectory ''/tmp/uploads'' None sweep_fs))) (''/tmp/uploads'', ''new'')
       = Some \<lparr> content = [3], mtimeMs = 90000000 \<rparr>
   \<and> map_of (files (snd (cleanDirectory ''/tmp/uploads'' None sweep_fs))) (''/tmp/uploads'', ''stuck'')
       = Some \<lparr> content = [1], mtimeMs = 0 \<rparr>"
proof -
  have wf: "distinct (map fst (files sweep_fs))"
    by (simp add: sweep_fs_def)
  have old: "map_of (files sweep_fs) (''/tmp/uploads'', ''old'') = Some \<lparr> content = [2], mtimeMs = 0 \<rparr>"
    by (simp add: sweep_fs_def)
  have new: "map_of (files sweep_fs) (''/tmp/uploads'', ''new'') = Some \<lparr> content = [3], mtimeMs = 90000000 \<rparr>"
    by (simp add: sweep_fs_def)
  have stuck: "map_of (files sweep_fs) (''/tmp/uploads'', ''stuck'') = Some \<lparr> content = [1], mtimeMs = 0 \<rparr>"
    by (simp add: sweep_fs_def)
  have env: "nowMs sweep_fs = 100000000" "refuses sweep_fs = (\<lambda>p k. p = (''/tmp/uploads'', ''stuck''))"
    by (simp_all add: sweep_fs_def)
  show ?thesis
    using cleanDirectory_age_sweep [OF wf old, of None]
      cleanDirectory_age_sweep [OF wf new, of None]
      cleanDirectory_age_sweep [OF wf stuck, of None] wf old
    by (simp add: env default_arg_def, blast)
qed

subsection \<open>emergencyCleanup and monitorDiskUsage\<close>

text \<open>
  \<^verbatim>\<open>process.env\<close>: a variable that is not set is \<open>None\<close>. \<^verbatim>\<open>Promise.all\<close> starts every
  promise; it is rejected with the first rejection, and fulfilled with all the values
  otherwise.
\<close>

record environment =
  TEMP_DIR :: "string option"
  UPLOAD_DIR :: "string option"
  OUTPUT_DIR :: "string option"

text \<open>
  \<^verbatim>\<open>path.join(a, b)\<close> of a directory and a subdirectory name, as Node computes it on POSIX:
  the arguments that are not empty are joined with a slash and the result is normalised.
  Normalising drops the empty segments and the segments \<^verbatim>\<open>.\<close>, resolves a segment \<^verbatim>\<open>..\<close>
  against the segment before it (above the root it is dropped, in a relative path it is
  kept), and keeps a trailing slash; the empty result is \<^verbatim>\<open>.\<close>. So \<^verbatim>\<open>/tmp\<close>, \<^verbatim>\<open>/tmp/\<close> and
  \<^verbatim>\<open>/tmp/./\<close> joined with \<^verbatim>\<open>uploads\<close> all give \<^verbatim>\<open>/tmp/uploads\<close>.
\<close>

fun split_slash :: "string \<Rightarrow> string list" where
  "split_slash [] = [[]]"
| "split_slash (c # cs) =
     (if c = CHR ''/'' then [] # split_slash cs
      else (case split_slash cs of
              seg # segs \<Rightarrow> (c # seg) # segs
            | [] \<Rightarrow> [[c]]))"

fun normalize_step :: "bool \<Rightarrow> string list \<Rightarrow> string \<Rightarrow> string list" where
  "normalize_step allowAboveRoot res seg =
     (if seg = [] \<or> seg = ''.'' then res
      else if seg = ''..''
        then (if res = [] then (if allowAboveRoot then [''..''] else [])
              else if last res = ''..'' then res @ [''..'']
              else butlast res)
      else res @ [seg])"

fun join_segments :: "string list \<Rightarrow> string" where
  "join_segments [] = []"
| "join_segments [seg] = seg"
| "join_segments (seg # next # segs) = seg @ ''/'' @ join_segments (next # segs)"

definition path_normalize :: "string \<Rightarrow> string" where
  "path_normalize p =
     (if p = [] then ''.''
      else
        let isAbsolute = (hd p = CHR ''/'');
            trailingSeparator = (last p = CHR ''/'');
            body = join_segments (foldl (normalize_step (\<not> isAbsolute)) [] (split_slash p))
        in if body = []
           then (if isAbsolute then ''/'' else if trailingSeparator then ''./'' else ''.'')
           else (if isAbsolute then ''/'' else []) @ body @ (if trailingSeparator then ''/'' else []))"

definition path_join :: "string \<Rightarrow> string \<Rightarrow> string" where
  "path_join a b =
     (let joined = (if a = [] then b else if b = [] then a else a @ ''/'' @ b)
      in if joined = [] then ''.'' else path_normalize joined)"

lemma path_join_examples:
  "path_join ''/tmp'' ''uploads'' = ''/tmp/uploads''"
  "path_join ''/tmp/'' ''uploads'' = ''/tmp/uploads''"
  "path_join ''/tmp/./'' ''uploads'' = ''/tmp/uploads''"
  "path_join ''/tmp/x/..'' ''uploads'' = ''/tmp/uploads''"
  "path_join ''/tmp'' ''converted'' = ''/tmp/converted''"
  "path_join ''/tmp'' ''secure'' = ''/tmp/secure''"
  "path_join [] ''uploads'' = ''uploads''"
  "path_join ''..'' ''uploads'' = ''../uploads''"
  by (simp_all add: path_join_def path_normalize_def Let_def)

fun first_rejection :: "'a settlement list \<Rightarrow> error option" where
  "first_rejection [] = None"
| "first_rejection (Rejected e # rs) = Some e"
| "first_rejection (Fulfilled v # rs) = first_rejection rs"

fun fulfilled_values :: "'a settlement list \<Rightarrow> 'a list" where
  "fulfilled_values [] = []"
| "fulfilled_values (Fulfilled v # rs) = v # fulfilled_values rs"
| "fulfilled_values (Rejected e # rs) = fulfilled_values rs"

definition promise_all :: "'a promise list \<Rightarrow> 'a list promise" where
  "promise_all ms fs =
     (case allSettled ms fs of (rs, fs') \<Rightarrow>
        (case first_rejection rs of
           Some e \<Rightarrow> (Inl e, fs')
         | None \<Rightarrow> (Inr (fulfilled_values rs), fs')))"

text \<open>
  \<^verbatim>\<open>emergencyCleanup\<close> returns \<^verbatim>\<open>{ deleted, total }\<close>. The array sort of JavaScript is stable,
  as \<open>sort_key\<close> is; \<^verbatim>\<open>Math.floor(files.length * 0.5)\<close> is \<open>length files div 2\<close>.
\<close>

definition emergencyCleanup :: "environment \<Rightarrow> (nat \<times> nat) promise" where
  "emergencyCleanup env =
     (case TEMP_DIR env of
        None \<Rightarrow> reject (Error ''The path argument must be of type string'' (Some ''ERR_INVALID_ARG_TYPE''))
      | Some temp \<Rightarrow>
          (let tempDir = path_join temp ''uploads'' in
           await (readdir tempDir) (\<lambda>names.
           let paths = map (\<lambda>name. (tempDir, name)) names in
           await (promise_all (map (\<lambda>p. await (stat p) (\<lambda>stats. resolve (p, stats))) paths))
             (\<lambda>filesWithStats.
           let sorted = sort_key (\<lambda>f. mtimeMs (snd f)) filesWithStats;
               toDelete = take (length paths div 2) sorted in
           await (promise_all (map (\<lambda>f. unlink (fst f)) toDelete)) (\<lambda>_.
           resolve (length toDelete, length paths))))))"

text \<open>
  \<^verbatim>\<open>statfs\<close> is the operating system's answer for a directory: \<^verbatim>\<open>bavail\<close> and \<^verbatim>\<open>bsize\<close>, or an
  error. \<^verbatim>\<open>freeGB\<close> is \<open>bavail * bsize / 1024 ^ 3\<close>, so \<^verbatim>\<open>freeGB < thresholdGB\<close> is
  \<open>bavail * bsize < thresholdGB * 1024 ^ 3\<close>; the sample keeps the free bytes.
\<close>

record disk_sample =
  directory :: string
  freeBytes :: nat
  belowThreshold :: bool

definition checkDiskSpace ::
  "(string \<Rightarrow> error + nat \<times> nat) \<Rightarrow> nat \<Rightarrow> string \<Rightarrow> disk_sample promise" where
  "checkDiskSpace statfs thresholdGB dir =
     (case statfs dir of
        Inl e \<Rightarrow> reject e
      | Inr (bavail, bsize) \<Rightarrow>
          resolve \<lparr> directory = dir, freeBytes = bavail * bsize,
                    belowThreshold = (bavail * bsize < thresholdGB * 1024 ^ 3) \<rparr>)"

text \<open>\<^verbatim>\<open>[...].filter(Boolean)\<close> drops the variables that are unset or empty.\<close>

definition monitored :: "environment \<Rightarrow> string list" where
  "monitored env =
     filter (\<lambda>d. d \<noteq> []) (List.map_filter id [TEMP_DIR env, UPLOAD_DIR env, OUTPUT_DIR env])"

definition monitorDiskUsage ::
  "environment \<Rightarrow> (string \<Rightarrow> error + nat \<times> nat) \<Rightarrow> nat option
     \<Rightarrow> (disk_sample list \<times> disk_sample list) promise" where
  "monitorDiskUsage env statfs thresholdGB =
     await (promise_all (map (checkDiskSpace statfs (default_arg 10 thresholdGB)) (monitored env)))
       (\<lambda>results.
     let critical = filter belowThreshold results in
     if 0 < length critical
     then await (emergencyCleanup env) (\<lambda>_. resolve (results, critical))
     else resolve (results, critical))"

section \<open>StorageOptimizer (cleanup.js)\<close>

subsection \<open>deduplicateFiles\<close>

text \<open>
  \<^verbatim>\<open>CosmicFileAnalyzer\<close> is a class of \<^verbatim>\<open>converter.js\<close>. \<^verbatim>\<open>cleanup.js\<close> does not import it and declares
  no such name, and no runtime has a global of that name. So in this module the expression
  \<^verbatim>\<open>CosmicFileAnalyzer.calculateQuantumHash(filePath)\<close> throws a \<^verbatim>\<open>ReferenceError\<close> when it is
  evaluated, whatever the file, and the loop of \<^verbatim>\<open>deduplicateFiles\<close> has no \<^verbatim>\<open>try\<close> around it.
\<close>

definition calculateQuantumHash_call :: "path \<Rightarrow> string promise" where
  "calculateQuantumHash_call filePath = reject (ReferenceError ''CosmicFileAnalyzer'')"

record duplicate =
  dup_file :: string
  dup_original :: string
  dup_path :: path

text \<open>
  The \<^verbatim>\<open>for\<close> loop over the listing: \<open>fileHashes\<close> is the \<^verbatim>\<open>Map\<close> from digest to the first
  file that had it, \<open>duplicates\<close> the array of later files with a digest already seen.
\<close>

fun hash_scan ::
  "string \<Rightarrow> string list \<Rightarrow> (string \<times> string) list \<Rightarrow> duplicate list
     \<Rightarrow> ((string \<times> string) list \<times> duplicate list) promise" where
  "hash_scan dir [] fileHashes duplicates = resolve (fileHashes, duplicates)"
| "hash_scan dir (name # names) fileHashes duplicates =
     await (calculateQuantumHash_call (dir, name)) (\<lambda>h.
       case map_of fileHashes h of
         Some original \<Rightarrow>
           hash_scan dir names fileHashes
             (duplicates @ [\<lparr> dup_file = name, dup_original = original, dup_path = (dir, name) \<rparr>])
       | None \<Rightarrow>
           hash_scan dir names (AList.update h name fileHashes) duplicates)"

text \<open>The callback of \<^verbatim>\<open>duplicates.map\<close>: the path to delete (\<^verbatim>\<open>item.delete\<close>).\<close>

definition choose_delete :: "string \<Rightarrow> duplicate \<Rightarrow> path promise" where
  "choose_delete dir dup =
     await (stat (dir, dup_original dup)) (\<lambda>originalStats.
     await (stat (dup_path dup)) (\<lambda>duplicateStats.
     resolve (if mtimeMs originalStats < mtimeMs duplicateStats
              then dup_path dup
              else (dir, dup_original dup))))"

record dedup_report =
  dd_totalFiles :: nat
  dd_unique :: nat
  dd_duplicates :: nat
  dd_deleted :: nat
  dd_details :: "duplicate list"

fun is_fulfilled :: "'a settlement \<Rightarrow> bool" where
  "is_fulfilled (Fulfilled v) = True"
| "is_fulfilled (Rejected e) = False"

definition deduplicateFiles :: "string \<Rightarrow> dedup_report promise" where
  "deduplicateFiles dir =
     await (readdir dir) (\<lambda>names.
     await (hash_scan dir names [] []) (\<lambda>(fileHashes, duplicates).
     await (promise_all (map (choose_delete dir) duplicates)) (\<lambda>toDelete fs.
       case allSettled (map unlink toDelete) fs of (deletionResults, fs') \<Rightarrow>
         (Inr \<lparr> dd_totalFiles = length names,
                 dd_unique = length fileHashes,
                 dd_duplicates = length duplicates,
                 dd_deleted = length (filter is_fulfilled deletionResults),
                 dd_details = duplicates \<rparr>, fs'))))"

definition dedup_fs :: fsys where
  "dedup_fs = \<lparr> dirs = [''/tmp/uploads''],
                files = [((''/tmp/uploads'', ''a''), \<lparr> content = [7], mtimeMs = 1 \<rparr>),
                         ((''/tmp/uploads'', ''b''), \<lparr> content = [7], mtimeMs = 2 \<rparr>)],
                nowMs = 10, refuses = (\<lambda>p k. False), journal = [] \<rparr>"

lemma hash_scan_rejects:
  "hash_scan dir (name # names) fileHashes duplicates fs = (Inl (ReferenceError ''CosmicFileAnalyzer''), fs)"
  by (simp add: calculateQuantumHash_call_def await_def reject_def)

lemma deduplicateFiles_eval:
  "deduplicateFiles dir fs =
     (if \<not> dir_exists fs dir then (Inl ENOENT, fs)
      else if listing fs dir = []
        then (Inr \<lparr> dd_totalFiles = 0, dd_unique = 0, dd_duplicates = 0, dd_deleted = 0,
                      dd_details = [] \<rparr>, fs)
      else (Inl (ReferenceError ''CosmicFileAnalyzer''), fs))"
proof (cases "listing fs dir")
  case Nil
  then show ?thesis
    by (simp add: deduplicateFiles_def await_def readdir_def listing_def resolve_def promise_all_def)
next
  case (Cons name names)
  then show ?thesis
    by (simp add: deduplicateFiles_def await_def readdir_def listing_def [symmetric] hash_scan_rejects
          del: hash_scan.simps)
qed

text \<open>
  C6. No sweep deletes anything: whatever the directory and the file system, the call leaves
  the file system as it was. The directory \<^verbatim>\<open>/tmp/uploads\<close> lists two files of identical
  content, \<open>a\<close> (modified at 1) and \<open>b\<close> (modified at 2). The sweep is rejected with the
  \<^verbatim>\<open>ReferenceError\<close> at the first file, and the newer file \<open>b\<close> is still there.
\<close>

theorem deduplicateFiles_deletes_nothing:
  "snd (deduplicateFiles dir fs) = fs
   \<and> deduplicateFiles ''/tmp/uploads'' dedup_fs = (Inl (Error ''CosmicFileAnalyzer is not defined'' None), dedup_fs)
   \<and> map_of (files dedup_fs) (''/tmp/uploads'', ''a'') = Some \<lparr> content = [7], mtimeMs = 1 \<rparr>
   \<and> map_of (files dedup_fs) (''/tmp/uploads'', ''b'') = Some \<lparr> content = [7], mtimeMs = 2 \<rparr>"
proof -
  have "snd (deduplicateFiles dir fs) = fs"
    by (simp add: deduplicateFiles_eval)
  moreover have "deduplicateFiles ''/tmp/uploads'' dedup_fs
                   = (Inl (Error ''CosmicFileAnalyzer is not defined'' None), dedup_fs)"
    unfolding deduplicateFiles_eval
    by (simp add: dir_exists_def listing_def dedup_fs_def ReferenceError_def)
  ultimately show ?thesis
    by (simp add: dedup_fs_def)
qed

section \<open>The emergency reclaim of monitorDiskUsage\<close>

text \<open>
  The files a reclaim removes from directory \<open>dir\<close>: its entries sorted by modification
  time, oldest first, and of these the first half.
\<close>

definition entries :: "fsys \<Rightarrow> string \<Rightarrow> (path \<times> file_entry) list" where
  "entries fs dir = filter (\<lambda>e. fst (fst e) = dir) (files fs)"

definition oldest_half :: "fsys \<Rightarrow> string \<Rightarrow> path list" where
  "oldest_half fs dir =
     map fst (take (length (entries fs dir) div 2) (sort_key (\<lambda>e. mtimeMs (snd e)) (entries fs dir)))"

lemma first_rejection_Fulfilled [simp]: "first_rejection (map Fulfilled xs) = None"
  by (induction xs) simp_all

lemma fulfilled_values_Fulfilled [simp]: "fulfilled_values (map Fulfilled xs) = xs"
  by (induction xs) simp_all

lemma promise_all_fulfilled:
  "allSettled ms fs = (map Fulfilled xs, fs') \<Longrightarrow> promise_all ms fs = (Inr xs, fs')"
  by (simp add: promise_all_def)

definition sample :: "(string \<Rightarrow> error + nat \<times> nat) \<Rightarrow> nat \<Rightarrow> string \<Rightarrow> disk_sample" where
  "sample statfs thresholdGB dir =
     (case statfs dir of
        Inr (bavail, bsize) \<Rightarrow>
          \<lparr> directory = dir, freeBytes = bavail * bsize,
            belowThreshold = (bavail * bsize < thresholdGB * 1024 ^ 3) \<rparr>
      | Inl e \<Rightarrow> \<lparr> directory = dir, freeBytes = 0, belowThreshold = False \<rparr>)"

lemma allSettled_checkDiskSpace:
  "\<forall>d \<in> set ds. \<exists>s. statfs d = Inr s \<Longrightarrow>
   allSettled (map (checkDiskSpace statfs thr) ds) fs = (map Fulfilled (map (sample statfs thr) ds), fs)"
  by (induction ds) (auto simp: settle_def checkDiskSpace_def sample_def resolve_def)

lemma allSettled_stat:
  "\<forall>p \<in> set ps. map_of (files fs) p \<noteq> None \<Longrightarrow>
   allSettled (map (\<lambda>p. await (stat p) (\<lambda>stats. resolve (p, stats))) ps) fs =
     (map Fulfilled (map (\<lambda>p. (p, the (map_of (files fs) p))) ps), fs)"
  by (induction ps) (auto simp: settle_def stat_def await_def resolve_def)

lemma allSettled_unlink:
  assumes "distinct ps"
    and "\<forall>p \<in> set ps. map_of (files fs) p \<noteq> None \<and> \<not> refuses fs p (attempts fs p)"
  shows "fst (allSettled (map unlink ps) fs) = map Fulfilled (map (\<lambda>p. ()) ps)
       \<and> (\<forall>q. map_of (files (snd (allSettled (map unlink ps) fs))) q =
               (if q \<in> set ps then None else map_of (files fs) q))"
  using assms
proof (induction ps arbitrary: fs)
  case Nil
  then show ?case by simp
next
  case (Cons p ps)
  let ?fs1 = "fs\<lparr> files := AList.delete p (files fs), journal := journal fs @ [Unlink p True] \<rparr>"
  have st: "settle (unlink p) fs = (Fulfilled (), ?fs1)"
    using Cons.prems by (simp add: settle_def unlink_def)
  have pre: "\<forall>q \<in> set ps. map_of (files ?fs1) q \<noteq> None \<and> \<not> refuses ?fs1 q (attempts ?fs1 q)"
    using Cons.prems by (auto simp: AList.delete_conv' attempts_def)
  have dn: "distinct ps" using Cons.prems by simp
  note IH = Cons.IH [OF dn pre]
  obtain rs fs2 where rest: "allSettled (map unlink ps) ?fs1 = (rs, fs2)"
    by (cases "allSettled (map unlink ps) ?fs1")
  have whole: "allSettled (map unlink (p # ps)) fs = (Fulfilled () # rs, fs2)"
    using st rest by simp
  have rs: "rs = map Fulfilled (map (\<lambda>p. ()) ps)"
    using IH rest by simp
  have f2: "\<And>q. map_of (files fs2) q = (if q \<in> set ps then None else map_of (files ?fs1) q)"
    using IH rest by (simp del: split_paired_All)
  show ?case
    unfolding whole by (auto simp add: rs f2 AList.delete_conv')
qed

lemma listing_paths: "map (\<lambda>name. (dir, name)) (listing fs dir) = map fst (entries fs dir)"
  by (simp add: listing_def entries_def)

lemma entries_lookup:
  assumes "distinct (map fst (files fs))"
  shows "map (\<lambda>p. (p, the (map_of (files fs) p))) (map fst (entries fs dir)) = entries fs dir"
proof -
  have "\<And>e. e \<in> set (entries fs dir) \<Longrightarrow> (fst e, the (map_of (files fs) (fst e))) = e"
  proof -
    fix e assume "e \<in> set (entries fs dir)"
    then have "(fst e, snd e) \<in> set (files fs)"
      by (simp add: entries_def)
    with assms have "map_of (files fs) (fst e) = Some (snd e)"
      by simp
    then show "(fst e, the (map_of (files fs) (fst e))) = e"
      by simp
  qed
  then show ?thesis
    by (simp add: map_idI)
qed

lemma entries_exist:
  "p \<in> set (map fst (entries fs dir)) \<Longrightarrow> map_of (files fs) p \<noteq> None"
proof -
  assume "p \<in> set (map fst (entries fs dir))"
  then have "p \<in> fst ` set (files fs)"
    by (auto simp: entries_def)
  then show ?thesis
    by (simp add: map_of_eq_None_iff)
qed

lemma oldest_half_subset: "set (oldest_half fs dir) \<subseteq> set (map fst (entries fs dir))"
proof -
  have "set (take (length (entries fs dir) div 2) (sort_key (\<lambda>e. mtimeMs (snd e)) (entries fs dir)))
          \<subseteq> set (entries fs dir)"
    using set_take_subset [of "length (entries fs dir) div 2" "sort_key (\<lambda>e. mtimeMs (snd e)) (entries fs dir)"]
    by simp
  then show ?thesis
    by (auto simp: oldest_half_def)
qed

lemma oldest_half_distinct:
  assumes "distinct (map fst (files fs))"
  shows "distinct (oldest_half fs dir)"
proof -
  have d: "distinct (map fst (entries fs dir))"
    unfolding entries_def using assms by (rule distinct_map_filter)
  have "distinct (map fst (sort_key (\<lambda>e. mtimeMs (snd e)) (entries fs dir)))"
    using d by (simp add: distinct_map)
  then have "distinct (take (length (entries fs dir) div 2)
                 (map fst (sort_key (\<lambda>e. mtimeMs (snd e)) (entries fs dir))))"
    by (rule distinct_take)
  then show ?thesis
    by (simp add: oldest_half_def take_map)
qed

lemma emergencyCleanup_eval:
  assumes wf: "distinct (map fst (files fs))"
    and temp: "TEMP_DIR env = Some temp"
    and up: "dir_exists fs (path_join temp ''uploads'')"
    and ok: "\<forall>p \<in> set (oldest_half fs (path_join temp ''uploads'')). \<not> refuses fs p (attempts fs p)"
  shows "fst (emergencyCleanup env fs) =
           Inr (length (oldest_half fs (path_join temp ''uploads'')),
                length (entries fs (path_join temp ''uploads'')))
       \<and> (\<forall>q. map_of (files (snd (emergencyCleanup env fs))) q =
               (if q \<in> set (oldest_half fs (path_join temp ''uploads'')) then None
                else map_of (files fs) q))"
proof -
  let ?up = "path_join temp ''uploads''"
  let ?paths = "map (\<lambda>name. (?up, name)) (listing fs ?up)"
  have rd: "readdir ?up fs = (Inr (listing fs ?up), fs)"
    using up by (simp add: readdir_def listing_def)
  have paths: "?paths = map fst (entries fs ?up)"
    by (rule listing_paths)
  have ex: "\<forall>p \<in> set ?paths. map_of (files fs) p \<noteq> None"
    unfolding paths using entries_exist [of _ fs ?up] by blast
  have "allSettled (map (\<lambda>p. await (stat p) (\<lambda>stats. resolve (p, stats))) ?paths) fs =
          (map Fulfilled (map (\<lambda>p. (p, the (map_of (files fs) p))) ?paths), fs)"
    using ex by (rule allSettled_stat)
  then have "allSettled (map (\<lambda>p. await (stat p) (\<lambda>stats. resolve (p, stats))) ?paths) fs =
          (map Fulfilled (entries fs ?up), fs)"
    by (simp only: paths entries_lookup [OF wf])
  then have stats: "promise_all (map (\<lambda>p. await (stat p) (\<lambda>stats. resolve (p, stats))) ?paths) fs =
          (Inr (entries fs ?up), fs)"
    by (rule promise_all_fulfilled)
  let ?toDelete = "take (length ?paths div 2) (sort_key (\<lambda>f. mtimeMs (snd f)) (entries fs ?up))"
  have td: "map (\<lambda>f. unlink (fst f)) ?toDelete = map unlink (oldest_half fs ?up)"
    by (simp add: oldest_half_def paths)
  have len: "length ?toDelete = length (oldest_half fs ?up)"
    by (simp add: oldest_half_def paths)
  have pre: "\<forall>p \<in> set (oldest_half fs ?up). map_of (files fs) p \<noteq> None \<and> \<not> refuses fs p (attempts fs p)"
    using ok oldest_half_subset [of fs ?up] entries_exist [of _ fs ?up] by blast
  note un = allSettled_unlink [OF oldest_half_distinct [OF wf] pre]
  obtain rs fs' where run: "allSettled (map unlink (oldest_half fs ?up)) fs = (rs, fs')"
    by (cases "allSettled (map unlink (oldest_half fs ?up)) fs")
  have rs: "rs = map Fulfilled (map (\<lambda>p. ()) (oldest_half fs ?up))"
    using un run by simp
  have fl: "\<And>q. map_of (files fs') q = (if q \<in> set (oldest_half fs ?up) then None else map_of (files fs) q)"
    using un run by (simp del: split_paired_All)
  have unl: "promise_all (map (\<lambda>f. unlink (fst f)) ?toDelete) fs =
               (Inr (map (\<lambda>p. ()) (oldest_half fs ?up)), fs')"
    unfolding td by (rule promise_all_fulfilled) (simp add: run rs)
  have "emergencyCleanup env fs = (Inr (length ?toDelete, length ?paths), fs')"
    unfolding emergencyCleanup_def Let_def temp option.case
    by (simp only: await_def rd stats unl resolve_def prod.case sum.case)
  moreover have "length ?paths = length (entries fs ?up)"
    by (simp add: paths)
  ultimately have "emergencyCleanup env fs =
          (Inr (length (oldest_half fs ?up), length (entries fs ?up)), fs')"
    by (simp add: oldest_half_def)
  then show ?thesis
    using fl by (simp del: split_paired_All)
qed

lemma monitorDiskUsage_eval:
  fixes statfs :: "string \<Rightarrow> error + nat \<times> nat"
  assumes wf: "distinct (map fst (files fs))"
    and temp: "TEMP_DIR env = Some temp"
    and up: "dir_exists fs (path_join temp ''uploads'')"
    and answers: "\<forall>d \<in> set (monitored env). \<exists>s. statfs d = Inr s"
    and pressure: "\<exists>d \<in> set (monitored env). \<exists>bavail bsize.
                     statfs d = Inr (bavail, bsize)
                     \<and> bavail * bsize < default_arg 10 thresholdGB * 1024 ^ 3"
    and ok: "\<forall>p \<in> set (oldest_half fs (path_join temp ''uploads'')). \<not> refuses fs p (attempts fs p)"
  shows "fst (monitorDiskUsage env statfs thresholdGB fs) =
           Inr (map (sample statfs (default_arg 10 thresholdGB)) (monitored env),
                filter belowThreshold (map (sample statfs (default_arg 10 thresholdGB)) (monitored env)))
       \<and> (\<forall>q. map_of (files (snd (monitorDiskUsage env statfs thresholdGB fs))) q =
               (if q \<in> set (oldest_half fs (path_join temp ''uploads'')) then None
                else map_of (files fs) q))"
proof -
  let ?thr = "default_arg 10 thresholdGB"
  let ?results = "map (sample statfs ?thr) (monitored env)"
  have chk: "promise_all (map (checkDiskSpace statfs ?thr) (monitored env)) fs = (Inr ?results, fs)"
    using allSettled_checkDiskSpace [OF answers, of ?thr fs] by (rule promise_all_fulfilled)
  from pressure obtain d bavail bsize where d: "d \<in> set (monitored env)"
    and sd: "statfs d = Inr (bavail, bsize)" and low: "bavail * bsize < ?thr * 1024 ^ 3"
    by blast
  have "belowThreshold (sample statfs ?thr d)"
    using sd low by (simp add: sample_def)
  with d have "sample statfs ?thr d \<in> set (filter belowThreshold ?results)"
    by simp
  then have crit: "0 < length (filter belowThreshold ?results)"
    by (cases "filter belowThreshold ?results") simp_all
  note em = emergencyCleanup_eval [OF wf temp up ok]
  obtain r fs' where run: "emergencyCleanup env fs = (r, fs')"
    by (cases "emergencyCleanup env fs")
  have r: "r = Inr (length (oldest_half fs (path_join temp ''uploads'')),
                    length (entries fs (path_join temp ''uploads'')))"
    using em run by simp
  have fl: "\<And>q. map_of (files fs') q =
               (if q \<in> set (oldest_half fs (path_join temp ''uploads'')) then None
                else map_of (files fs) q)"
    using em run by (simp del: split_paired_All)
  have "monitorDiskUsage env statfs thresholdGB fs =
          (Inr (?results, filter belowThreshold ?results), fs')"
    unfolding monitorDiskUsage_def Let_def
    using crit by (simp only: await_def chk prod.case sum.case if_True run r resolve_def)
  then show ?thesis
    using fl by (simp del: split_paired_All)
qed

text \<open>
  When a \<^verbatim>\<open>statfs\<close> call fails, \<^verbatim>\<open>TEMP_DIR\<close> is not set, or the \<^verbatim>\<open>uploads\<close> directory under it does
  not exist, \<^verbatim>\<open>monitorDiskUsage\<close> leaves the file system as it was.
\<close>

lemma allSettled_checkDiskSpace_state:
  "snd (allSettled (map (checkDiskSpace statfs thr) ds) fs) = fs"
  by (induction ds)
     (auto simp: settle_def checkDiskSpace_def resolve_def reject_def split: sum.splits prod.splits)

lemma allSettled_checkDiskSpace_rejection:
  "\<exists>d \<in> set ds. \<exists>e. statfs d = Inl e \<Longrightarrow>
   first_rejection (fst (allSettled (map (checkDiskSpace statfs thr) ds) fs)) \<noteq> None"
proof (induction ds)
  case Nil
  then show ?case by simp
next
  case (Cons d ds)
  show ?case
  proof (cases "statfs d")
    case (Inl e)
    then show ?thesis
      by (simp add: settle_def checkDiskSpace_def reject_def split: prod.splits)
  next
    case (Inr s)
    with Cons.prems have "\<exists>d \<in> set ds. \<exists>e. statfs d = Inl e"
      by auto
    then have IH: "first_rejection (fst (allSettled (map (checkDiskSpace statfs thr) ds) fs)) \<noteq> None"
      by (rule Cons.IH)
    obtain rs fs' where rest: "allSettled (map (checkDiskSpace statfs thr) ds) fs = (rs, fs')"
      by (cases "allSettled (map (checkDiskSpace statfs thr) ds) fs")
    obtain bavail bsize where s: "s = (bavail, bsize)"
      by (cases s)
    have "settle (checkDiskSpace statfs thr d) fs =
            (Fulfilled \<lparr> directory = d, freeBytes = bavail * bsize,
                          belowThreshold = (bavail * bsize < thr * 1024 ^ 3) \<rparr>, fs)"
      using Inr s by (simp add: settle_def checkDiskSpace_def resolve_def)
    then show ?thesis
      using IH rest by simp
  qed
qed

lemma emergencyCleanup_unreadable:
  assumes "TEMP_DIR env = None
           \<or> (\<exists>temp. TEMP_DIR env = Some temp \<and> \<not> dir_exists fs (path_join temp ''uploads''))"
  shows "\<exists>e. emergencyCleanup env fs = (Inl e, fs)"
  using assms
  by (auto simp: emergencyCleanup_def reject_def await_def readdir_def Let_def)

lemma monitorDiskUsage_deletes_nothing:
  fixes statfs :: "string \<Rightarrow> error + nat \<times> nat"
  assumes "(\<exists>d \<in> set (monitored env). \<exists>e. statfs d = Inl e)
           \<or> TEMP_DIR env = None
           \<or> (\<exists>temp. TEMP_DIR env = Some temp \<and> \<not> dir_exists fs (path_join temp ''uploads''))"
  shows "snd (monitorDiskUsage env statfs thresholdGB fs) = fs"
proof -
  let ?thr = "default_arg 10 thresholdGB"
  obtain rs fs1 where al: "allSettled (map (checkDiskSpace statfs ?thr) (monitored env)) fs = (rs, fs1)"
    by (cases "allSettled (map (checkDiskSpace statfs ?thr) (monitored env)) fs")
  have fs1: "fs1 = fs"
    using allSettled_checkDiskSpace_state [of statfs ?thr "monitored env" fs] al by simp
  show ?thesis
  proof (cases "first_rejection rs")
    case (Some e)
    then show ?thesis
      by (simp add: monitorDiskUsage_def await_def promise_all_def al fs1)
  next
    case None
    with allSettled_checkDiskSpace_rejection [of "monitored env" statfs ?thr fs] al
    have "\<not> (\<exists>d \<in> set (monitored env). \<exists>e. statfs d = Inl e)"
      by auto
    with assms obtain e where "emergencyCleanup env fs = (Inl e, fs)"
      using emergencyCleanup_unreadable [of env fs] by blast
    with None show ?thesis
      by (simp add: monitorDiskUsage_def await_def promise_all_def al fs1 Let_def resolve_def)
  qed
qed

definition press_env :: environment where
  "press_env = \<lparr> TEMP_DIR = Some ''/tmp'', UPLOAD_DIR = None, OUTPUT_DIR = Some ''/out'' \<rparr>"

definition press_statfs :: "string \<Rightarrow> error + nat \<times> nat" where
  "press_statfs d = (if d = ''/out'' then Inr (1, 4096) else Inr (10000000, 4096))"

definition press_fs :: fsys where
  "press_fs = \<lparr> dirs = [''/tmp'', ''/tmp/uploads'', ''/out''],
                files = [((''/tmp/uploads'', ''u2''), \<lparr> content = [7], mtimeMs = 2 \<rparr>),
                         ((''/tmp/uploads'', ''u1''), \<lparr> content = [8], mtimeMs = 1 \<rparr>),
                         ((''/out'', ''x''), \<lparr> content = [9], mtimeMs = 0 \<rparr>),
                         ((''/out'', ''y''), \<lparr> content = [9], mtimeMs = 5 \<rparr>)],
                nowMs = 10, refuses = (\<lambda>p k. False), journal = [] \<rparr>"

lemma press_facts:
  "distinct (map fst (files press_fs))"
  "TEMP_DIR press_env = Some ''/tmp''"
  "path_join ''/tmp'' ''uploads'' = ''/tmp/uploads''"
  "dir_exists press_fs ''/tmp/uploads''"
  "monitored press_env = [''/tmp'', ''/out'']"
  "oldest_half press_fs ''/tmp/uploads'' = [(''/tmp/uploads'', ''u1'')]"
  "refuses press_fs = (\<lambda>p k. False)"
  by (simp_all add: press_fs_def press_env_def path_join_examples dir_exists_def monitored_def
        List.map_filter_simps oldest_half_def entries_def)

lemma press_hypotheses:
  "\<forall>d \<in> set (monitored press_env). \<exists>s. press_statfs d = Inr s"
  "\<exists>d \<in> set (monitored press_env). \<exists>bavail bsize.
      press_statfs d = Inr (bavail, bsize) \<and> bavail * bsize < default_arg 10 None * 1024 ^ 3"
  "\<forall>p \<in> set (oldest_half press_fs (path_join ''/tmp'' ''uploads'')).
      \<not> refuses press_fs p (attempts press_fs p)"
  by (simp_all add: press_facts press_statfs_def default_arg_def)

text \<open>
  C8, as the code has it. Every \<^verbatim>\<open>statfs\<close> call on the monitored directories (those of
  \<^verbatim>\<open>TEMP_DIR\<close>, \<^verbatim>\<open>UPLOAD_DIR\<close> and \<^verbatim>\<open>OUTPUT_DIR\<close> that are set and not empty) answers, at least one
  of them has less free space than the threshold (10 GB by default), \<^verbatim>\<open>TEMP_DIR\<close> is set, the
  directory \<^verbatim>\<open>path.join(TEMP_DIR, 'uploads')\<close> exists, and no unlink of a file chosen for
  deletion is refused. Then \<^verbatim>\<open>monitorDiskUsage\<close> reports the samples and removes exactly the
  oldest half (by modification time, \<open>n div 2\<close> files) of the entries of that \<^verbatim>\<open>uploads\<close>
  directory, whichever directory was below the threshold; every other file is left as it
  was. Free space is not read again. (The file table names every path once.)
\<close>

theorem emergency_reclaim_uploads_oldest_half:
  fixes statfs :: "string \<Rightarrow> error + nat \<times> nat"
  assumes "distinct (map fst (files fs))"
    and "TEMP_DIR env = Some temp"
    and "dir_exists fs (path_join temp ''uploads'')"
    and "\<forall>d \<in> set (monitored env). \<exists>s. statfs d = Inr s"
    and "\<exists>d \<in> set (monitored env). \<exists>bavail bsize.
            statfs d = Inr (bavail, bsize)
            \<and> bavail * bsize < default_arg 10 thresholdGB * 1024 ^ 3"
    and "\<forall>p \<in> set (oldest_half fs (path_join temp ''uploads'')). \<not> refuses fs p (attempts fs p)"
  shows "fst (monitorDiskUsage env statfs thresholdGB fs) =
           Inr (map (sample statfs (default_arg 10 thresholdGB)) (monitored env),
                filter belowThreshold (map (sample statfs (default_arg 10 thresholdGB)) (monitored env)))
       \<and> (\<forall>q. map_of (files (snd (monitorDiskUsage env statfs thresholdGB fs))) q =
               (if q \<in> set (oldest_half fs (path_join temp ''uploads'')) then None
                else map_of (files fs) q))"
  using assms by (rule monitorDiskUsage_eval)

theorem emergency_reclaim_uploads_oldest_half_witness:
  "distinct (map fst (files press_fs))
   \<and> TEMP_DIR press_env = Some ''/tmp''
   \<and> dir_exists press_fs (path_join ''/tmp'' ''uploads'')
   \<and> map_of (files (snd (monitorDiskUsage press_env press_statfs None press_fs))) (''/tmp/uploads'', ''u1'')
       = None
   \<and> map_of (files (snd (monitorDiskUsage press_env press_statfs None press_fs))) (''/tmp/uploads'', ''u2'')
       = Some \<lparr> content = [7], mtimeMs = 2 \<rparr>"
proof -
  note th = emergency_reclaim_uploads_oldest_half [OF press_facts(1) press_facts(2) _ press_hypotheses]
  have up: "dir_exists press_fs (path_join ''/tmp'' ''uploads'')"
    by (simp add: press_facts)
  have "\<forall>q. map_of (files (snd (monitorDiskUsage press_env press_statfs None press_fs))) q =
               (if q \<in> set (oldest_half press_fs (path_join ''/tmp'' ''uploads'')) then None
                else map_of (files press_fs) q)"
    using th [OF up] by (simp del: split_paired_All)
  then have "\<And>q. map_of (files (snd (monitorDiskUsage press_env press_statfs None press_fs))) q =
               (if q = (''/tmp/uploads'', ''u1'') then None else map_of (files press_fs) q)"
    by (simp add: press_facts del: split_paired_All)
  then show ?thesis
    using up by (simp add: press_facts) (simp add: press_fs_def)
qed

text \<open>
  The claim as stated fails here: \<^verbatim>\<open>/out\<close> is the directory below the threshold and keeps
  both its files, while \<^verbatim>\<open>/tmp\<close> is not below the threshold and the older of the two
  files under \<^verbatim>\<open>/tmp/uploads\<close> is deleted.
\<close>

theorem emergency_reclaim_counterexample:
  "fst (monitorDiskUsage press_env press_statfs None press_fs) =
      Inr ([\<lparr> directory = ''/tmp'', freeBytes = 40960000000, belowThreshold = False \<rparr>,
            \<lparr> directory = ''/out'', freeBytes = 4096, belowThreshold = True \<rparr>],
           [\<lparr> directory = ''/out'', freeBytes = 4096, belowThreshold = True \<rparr>])
   \<and> file_exists (snd (monitorDiskUsage press_env press_statfs None press_fs)) (''/out'', ''x'')
   \<and> file_exists (snd (monitorDiskUsage press_env press_statfs None press_fs)) (''/out'', ''y'')
   \<and> \<not> file_exists (snd (monitorDiskUsage press_env press_statfs None press_fs)) (''/tmp/uploads'', ''u1'')"
proof -
  have up: "dir_exists press_fs (path_join ''/tmp'' ''uploads'')"
    by (simp add: press_facts)
  note ev = monitorDiskUsage_eval [OF press_facts(1) press_facts(2) up press_hypotheses]
  have vals: "press_statfs ''/tmp'' = Inr (10000000, 4096)" "press_statfs ''/out'' = Inr (1, 4096)"
    by (simp_all add: press_statfs_def)
  have res: "fst (monitorDiskUsage press_env press_statfs None press_fs) =
      Inr ([\<lparr> directory = ''/tmp'', freeBytes = 40960000000, belowThreshold = False \<rparr>,
            \<lparr> directory = ''/out'', freeBytes = 4096, belowThreshold = True \<rparr>],
           [\<lparr> directory = ''/out'', freeBytes = 4096, belowThreshold = True \<rparr>])"
    using ev by (simp add: press_facts sample_def vals default_arg_def del: split_paired_All)
  have "\<And>q. map_of (files (snd (monitorDiskUsage press_env press_statfs None press_fs))) q =
               (if q = (''/tmp/uploads'', ''u1'') then None else map_of (files press_fs) q)"
    using ev by (simp add: press_facts del: split_paired_All)
  then have "file_exists (snd (monitorDiskUsage press_env press_statfs None press_fs)) (''/out'', ''x'')"
    and "file_exists (snd (monitorDiskUsage press_env press_statfs None press_fs)) (''/out'', ''y'')"
    and "\<not> file_exists (snd (monitorDiskUsage press_env press_statfs None press_fs)) (''/tmp/uploads'', ''u1'')"
    by (simp_all add: file_exists_def press_fs_def)
  with res show ?thesis by simp
qed

section \<open>ConversionOrchestrator: performConversion (convert.js)\<close>

text \<open>
  The engines are outside the repository. \<^verbatim>\<open>sharp\<close> and \<^verbatim>\<open>ffmpeg\<close> write the output file
  themselves: a run ends well with the bytes written, or fails with an error and possibly a
  partial file left at the output path. \<^verbatim>\<open>LibreOffice.convert\<close> maps bytes to bytes or an
  error, and the program writes the result. \<^verbatim>\<open>fileTypeFromFile\<close> reads the file and returns
  its MIME type, or \<^verbatim>\<open>undefined\<close> (\<open>None\<close>) when it knows none.
\<close>

datatype engine_result = EngineDone "byte list" | EngineFailed error "byte list option"

record codecs =
  fileTypeOf :: "byte list \<Rightarrow> string option"
  sharp_toFile :: "byte list \<Rightarrow> string \<Rightarrow> engine_result"
  ffmpeg_save :: "byte list \<Rightarrow> string \<Rightarrow> engine_result"
  libreoffice_convert :: "byte list \<Rightarrow> string \<Rightarrow> error + byte list"

record job =
  filePath :: path
  targetFormat :: string
  sessionId :: string

record conversion =
  originalPath :: path
  convertedPath :: path
  format :: string
  size :: nat
  mimeType :: string
  conv_sessionId :: string
  timestamp :: int

definition fileTypeFromFile :: "codecs \<Rightarrow> path \<Rightarrow> string option promise" where
  "fileTypeFromFile cd p = await (readFile p) (\<lambda>bytes. resolve (fileTypeOf cd bytes))"

text \<open>An engine that writes the output file itself, run on the bytes of the input file.\<close>

definition run_engine :: "string \<Rightarrow> (byte list \<Rightarrow> engine_result) \<Rightarrow> path \<Rightarrow> path \<Rightarrow> unit promise" where
  "run_engine engine execute inputPath outputPath fs =
     (case map_of (files fs) inputPath of
        None \<Rightarrow> (Inl ENOENT, fs\<lparr> journal := journal fs @ [Invoke engine outputPath] \<rparr>)
      | Some input \<Rightarrow>
          (case execute (content input) of
             EngineDone bytes \<Rightarrow>
               (Inr (), fs\<lparr> files := AList.update outputPath
                                          \<lparr> content = bytes, mtimeMs = nowMs fs \<rparr> (files fs),
                                journal := journal fs @ [Invoke engine outputPath] \<rparr>)
           | EngineFailed e partial \<Rightarrow>
               (Inl e, fs\<lparr> files := (case partial of
                                         None \<Rightarrow> files fs
                                       | Some bytes \<Rightarrow>
                                           AList.update outputPath
                                             \<lparr> content = bytes, mtimeMs = nowMs fs \<rparr> (files fs)),
                              journal := journal fs @ [Invoke engine outputPath] \<rparr>)))"

definition selectStrategy :: "string \<Rightarrow> string \<Rightarrow> error + string" where
  "selectStrategy fileType targetFmt =
     (let imageFormats = [''jpg'', ''png'', ''webp'', ''avif'', ''gif''];
          videoFormats = [''mp4'', ''mov'', ''avi'', ''webm'', ''gif''];
          audioFormats = [''mp3'', ''wav'', ''ogg'', ''flac''];
          docFormats = [''pdf'', ''docx'', ''txt'']
      in if List.member imageFormats targetFmt then Inr ''sharp''
         else if List.member videoFormats targetFmt \<or> List.member audioFormats targetFmt
           then Inr ''ffmpeg''
         else if List.member docFormats targetFmt then Inr ''libreoffice''
         else if targetFmt = ''txt'' then Inr ''ocr''
         else Inl (Error (''No strategy for '' @ targetFmt) None))"

text \<open>The three branches of \<^verbatim>\<open>convertWithSharp\<close> call the same engine with the format.\<close>

definition convertWithSharp :: "codecs \<Rightarrow> path \<Rightarrow> path \<Rightarrow> string \<Rightarrow> unit promise" where
  "convertWithSharp cd inputPath outputPath fmt =
     run_engine ''sharp'' (\<lambda>bytes. sharp_toFile cd bytes fmt) inputPath outputPath"

text \<open>\<^verbatim>\<open>convertWithFFmpeg\<close> does not use its format: \<^verbatim>\<open>save\<close> goes by the name of the output.\<close>

definition convertWithFFmpeg :: "codecs \<Rightarrow> path \<Rightarrow> path \<Rightarrow> string \<Rightarrow> unit promise" where
  "convertWithFFmpeg cd inputPath outputPath fmt =
     run_engine ''ffmpeg'' (\<lambda>bytes. ffmpeg_save cd bytes (snd outputPath)) inputPath outputPath"

text \<open>
  The two format tables (here and in \<^verbatim>\<open>getMimeType\<close>) are object literals, read by the names
  they list. A name that every object inherits (\<^verbatim>\<open>constructor\<close>, \<^verbatim>\<open>toString\<close>, ...) is not in the
  lists below although JavaScript finds a value for it; \<^verbatim>\<open>performConversion\<close> gets here only
  with a target format that \<^verbatim>\<open>selectStrategy\<close> accepted, which is one of the names listed.
\<close>

definition convertWithLibreOffice :: "codecs \<Rightarrow> path \<Rightarrow> path \<Rightarrow> string \<Rightarrow> unit promise" where
  "convertWithLibreOffice cd inputPath outputPath fmt =
     (case map_of [(''pdf'', ''pdf''), (''docx'', ''docx''), (''txt'', ''txt'')] fmt of
        None \<Rightarrow> reject (Error (''LibreOffice cannot convert to '' @ fmt) None)
      | Some convertFormat \<Rightarrow>
          await (readFile inputPath) (\<lambda>fileData fs.
            let fs' = fs\<lparr> journal := journal fs @ [Invoke ''libreoffice'' outputPath] \<rparr>
            in case libreoffice_convert cd fileData convertFormat of
                 Inl err \<Rightarrow> (Inl err, fs')
               | Inr result \<Rightarrow> writeFile outputPath result fs'))"

definition convertWithOCR :: "path \<Rightarrow> path \<Rightarrow> unit promise" where
  "convertWithOCR inputPath outputPath =
     reject (Error ''OCR conversion not implemented in this demo'' None)"

definition getMimeType :: "string \<Rightarrow> string" where
  "getMimeType fmt =
     (case map_of
        [(''jpg'', ''image/jpeg''), (''png'', ''image/png''), (''webp'', ''image/webp''),
         (''avif'', ''image/avif''), (''gif'', ''image/gif''), (''mp4'', ''video/mp4''),
         (''mov'', ''video/quicktime''), (''avi'', ''video/x-msvideo''), (''webm'', ''video/webm''),
         (''mp3'', ''audio/mpeg''), (''wav'', ''audio/wav''), (''ogg'', ''audio/ogg''),
         (''flac'', ''audio/flac''), (''pdf'', ''application/pdf''),
         (''docx'', ''application/vnd.openxmlformats-officedocument.wordprocessingml.document''),
         (''txt'', ''text/plain'')] fmt of
        Some t \<Rightarrow> t
      | None \<Rightarrow> ''application/octet-stream'')"

text \<open>\<^verbatim>\<open>await fs.unlink(outputPath).catch(() => {})\<close>\<close>

definition unlink_quiet :: "path \<Rightarrow> unit promise" where
  "unlink_quiet p = try_catch (unlink p) (\<lambda>_. resolve ())"

text \<open>The \<^verbatim>\<open>switch\<close> on the strategy.\<close>

definition dispatch :: "codecs \<Rightarrow> string \<Rightarrow> string \<Rightarrow> job \<Rightarrow> path \<Rightarrow> unit promise" where
  "dispatch cd conversionStrategy fileType j outputPath =
     (if conversionStrategy = ''sharp''
        then convertWithSharp cd (filePath j) outputPath (targetFormat j)
      else if conversionStrategy = ''ffmpeg''
        then convertWithFFmpeg cd (filePath j) outputPath (targetFormat j)
      else if conversionStrategy = ''libreoffice''
        then convertWithLibreOffice cd (filePath j) outputPath (targetFormat j)
      else if conversionStrategy = ''ocr''
        then convertWithOCR (filePath j) outputPath
      else reject (Error (''Unsupported conversion: '' @ fileType @ '' to '' @ targetFormat j) None))"

text \<open>
  The output path of a job: \<^verbatim>\<open>path.join(outputDir, `${uuidv4()}.${targetFormat}`)\<close>, with
  \<open>uuid\<close> the value \<^verbatim>\<open>uuidv4()\<close> returns.
\<close>

definition outputPath_of :: "string \<Rightarrow> string \<Rightarrow> job \<Rightarrow> path" where
  "outputPath_of temp uuid j = (path_join temp ''converted'', uuid @ ''.'' @ targetFormat j)"

text \<open>
  \<^verbatim>\<open>performConversion\<close>. Destructuring \<^verbatim>\<open>undefined\<close> and \<^verbatim>\<open>path.join\<close> of an unset variable
  throw a \<^verbatim>\<open>TypeError\<close>; \<^verbatim>\<open>selectStrategy\<close> is called before the \<^verbatim>\<open>try\<close> block.
\<close>

definition performConversion :: "environment \<Rightarrow> codecs \<Rightarrow> string \<Rightarrow> job \<Rightarrow> conversion promise" where
  "performConversion env cd uuid j =
     await (fileTypeFromFile cd (filePath j)) (\<lambda>detected.
       case detected of
         None \<Rightarrow> reject (Error ''Cannot destructure property mime of undefined'' None)
       | Some mime \<Rightarrow>
           (let fileType = takeWhile (\<lambda>c. c \<noteq> CHR ''/'') mime in
            case TEMP_DIR env of
              None \<Rightarrow> reject (Error ''The path argument must be of type string''
                                  (Some ''ERR_INVALID_ARG_TYPE''))
            | Some temp \<Rightarrow>
                await (mkdir (path_join temp ''converted'')) (\<lambda>_.
                let outputPath = outputPath_of temp uuid j in
                case selectStrategy fileType (targetFormat j) of
                  Inl e \<Rightarrow> reject e
                | Inr conversionStrategy \<Rightarrow>
                    try_catch
                      (await (dispatch cd conversionStrategy fileType j outputPath) (\<lambda>_.
                       await (stat outputPath) (\<lambda>stats fs.
                         (Inr \<lparr> originalPath = filePath j, convertedPath = outputPath,
                                 format = targetFormat j, size = length (content stats),
                                 mimeType = getMimeType (targetFormat j),
                                 conv_sessionId = sessionId j, timestamp = nowMs fs \<rparr>, fs))))
                      (\<lambda>error. await (unlink_quiet outputPath) (\<lambda>_. reject error)))))"

subsection \<open>Failed jobs and unsupported pairs\<close>

lemma mkdir_files: "mkdir d fs = (r, fs1) \<Longrightarrow> files fs1 = files fs"
  by (auto simp: mkdir_def split: if_splits)

lemma fileTypeFromFile_state: "fileTypeFromFile cd p fs = (r, fs1) \<Longrightarrow> fs1 = fs"
  by (auto simp: fileTypeFromFile_def readFile_def await_def resolve_def split: option.splits)

lemma cleanup_handler:
  assumes "await (unlink_quiet p) (\<lambda>_. reject error) fs = (r, fs')"
  shows "r = Inl error \<and> (file_exists fs' p \<longrightarrow> (\<exists>js. journal fs' = js @ [Unlink p False]))"
  using assms
  by (auto simp: unlink_quiet_def try_catch_def await_def unlink_def reject_def resolve_def
        file_exists_def AList.delete_conv' split: if_splits)

lemma try_catch_cleanup:
  fixes m :: "'a promise"
  assumes "try_catch m (\<lambda>error. await (unlink_quiet p) (\<lambda>_. reject error)) fs = (Inl e, fs')"
  shows "file_exists fs' p \<longrightarrow> (\<exists>js. journal fs' = js @ [Unlink p False])"
proof (cases "m fs")
  case (Pair r fs1)
  show ?thesis
  proof (cases r)
    case (Inl e0)
    with Pair assms
    have "await (unlink_quiet p) (\<lambda>_. reject e0 :: 'a promise) fs1 = (Inl e, fs')"
      by (simp add: try_catch_def)
    from cleanup_handler [OF this] show ?thesis
      by simp
  next
    case (Inr x)
    with Pair assms show ?thesis
      by (simp add: try_catch_def)
  qed
qed

definition conv_env :: environment where
  "conv_env = \<lparr> TEMP_DIR = Some ''/tmp'', UPLOAD_DIR = None, OUTPUT_DIR = None \<rparr>"

text \<open>Engines for the examples: \<^verbatim>\<open>sharp\<close> fails and leaves two bytes behind, the others succeed.\<close>

definition sample_codecs :: "string \<Rightarrow> codecs" where
  "sample_codecs mime =
     \<lparr> fileTypeOf = (\<lambda>bytes. Some mime),
       sharp_toFile = (\<lambda>bytes fmt. EngineFailed (Error ''Input file is corrupt'' None) (Some [1, 2])),
       ffmpeg_save = (\<lambda>bytes name. EngineDone [3]),
       libreoffice_convert = (\<lambda>bytes fmt. Inr [4, 5]) \<rparr>"

definition conv_fs :: "bool \<Rightarrow> fsys" where
  "conv_fs refused =
     \<lparr> dirs = [''/tmp/uploads'', ''/tmp/converted''],
       files = [((''/tmp/uploads'', ''in''), \<lparr> content = [9], mtimeMs = 1 \<rparr>)],
       nowMs = 10, refuses = (\<lambda>p k. refused), journal = [] \<rparr>"

definition sample_job :: "string \<Rightarrow> job" where
  "sample_job fmt = \<lparr> filePath = (''/tmp/uploads'', ''in''), targetFormat = fmt, sessionId = ''s'' \<rparr>"

lemma sample_output: "outputPath_of ''/tmp'' ''id'' (sample_job fmt) = (''/tmp/converted'', ''id.'' @ fmt)"
  by (simp add: outputPath_of_def path_join_examples sample_job_def)

lemma png_run:
  "performConversion conv_env (sample_codecs ''image/jpeg'') ''id'' (sample_job ''png'') (conv_fs refused) =
     (Inl (Error ''Input file is corrupt'' None),
      (conv_fs refused)
        \<lparr> files := (if refused
                    then [((''/tmp/uploads'', ''in''), \<lparr> content = [9], mtimeMs = 1 \<rparr>),
                          ((''/tmp/converted'', ''id.png''), \<lparr> content = [1, 2], mtimeMs = 10 \<rparr>)]
                    else [((''/tmp/uploads'', ''in''), \<lparr> content = [9], mtimeMs = 1 \<rparr>)]),
          journal := [Invoke ''sharp'' (''/tmp/converted'', ''id.png''),
                      Unlink (''/tmp/converted'', ''id.png'') (\<not> refused)] \<rparr>)"
  by (simp add: performConversion_def fileTypeFromFile_def readFile_def await_def resolve_def reject_def
        conv_env_def sample_codecs_def conv_fs_def sample_job_def mkdir_def dir_exists_def path_join_examples
        outputPath_of_def selectStrategy_def dispatch_def convertWithSharp_def run_engine_def
        try_catch_def unlink_quiet_def unlink_def attempts_def Let_def AList.delete_eq)

lemma pdf_run:
  "performConversion conv_env (sample_codecs ''audio/mpeg'') ''id'' (sample_job ''pdf'') (conv_fs False) =
     (Inr \<lparr> originalPath = (''/tmp/uploads'', ''in''), convertedPath = (''/tmp/converted'', ''id.pdf''),
             format = ''pdf'', size = 2, mimeType = ''application/pdf'', conv_sessionId = ''s'',
             timestamp = 10 \<rparr>,
      (conv_fs False)
        \<lparr> files := [((''/tmp/uploads'', ''in''), \<lparr> content = [9], mtimeMs = 1 \<rparr>),
                     ((''/tmp/converted'', ''id.pdf''), \<lparr> content = [4, 5], mtimeMs = 10 \<rparr>)],
          journal := [Invoke ''libreoffice'' (''/tmp/converted'', ''id.pdf''),
                      WriteFile (''/tmp/converted'', ''id.pdf'') [4, 5] True] \<rparr>)"
  by (simp add: performConversion_def fileTypeFromFile_def readFile_def await_def resolve_def reject_def
        conv_env_def sample_codecs_def conv_fs_def sample_job_def mkdir_def dir_exists_def path_join_examples
        outputPath_of_def selectStrategy_def dispatch_def convertWithLibreOffice_def writeFile_def
        try_catch_def stat_def attempts_def Let_def getMimeType_def)

text \<open>
  C3, as the code has it. A job fails, its output path held no file before, and
  \<^verbatim>\<open>TEMP_DIR\<close> is set. Then, when \<^verbatim>\<open>performConversion\<close> has settled (the slot is released only
  after that), no file is at the output path, unless the last thing the call did was an
  unlink of the output path that failed: the \<^verbatim>\<open>catch\<close> block ignores a failed unlink and
  throws the original error.
\<close>

theorem failed_job_leaves_no_output:
  assumes temp: "TEMP_DIR env = Some temp"
    and fresh: "\<not> file_exists fs (outputPath_of temp uuid j)"
    and failed: "fst (performConversion env cd uuid j fs) = Inl e"
  shows "file_exists (snd (performConversion env cd uuid j fs)) (outputPath_of temp uuid j) \<longrightarrow>
           (\<exists>js. journal (snd (performConversion env cd uuid j fs))
                   = js @ [Unlink (outputPath_of temp uuid j) False])"
proof -
  let ?out = "outputPath_of temp uuid j"
  obtain fs' where run: "performConversion env cd uuid j fs = (Inl e, fs')"
    using failed by (cases "performConversion env cd uuid j fs") simp
  have goal: "file_exists fs' ?out \<longrightarrow> (\<exists>js. journal fs' = js @ [Unlink ?out False])"
  proof (cases "fileTypeFromFile cd (filePath j) fs")
    case (Pair r0 fs0)
    then have fs0: "fs0 = fs" by (rule fileTypeFromFile_state)
    show ?thesis
    proof (cases r0)
      case (Inl e0)
      with Pair run fs0 have "fs' = fs"
        by (simp add: performConversion_def await_def)
      with fresh show ?thesis by simp
    next
      case (Inr detected)
      show ?thesis
      proof (cases detected)
        case None
        with Pair Inr run fs0 have "fs' = fs"
          by (simp add: performConversion_def await_def reject_def)
        with fresh show ?thesis by simp
      next
        case (Some mime)
        obtain r1 fs1 where mk: "mkdir (path_join temp ''converted'') fs = (r1, fs1)"
          by (cases "mkdir (path_join temp ''converted'') fs")
        have f1: "files fs1 = files fs" using mk by (rule mkdir_files)
        show ?thesis
        proof (cases r1)
          case (Inl e1)
          with Pair Inr Some run fs0 temp mk have "fs' = fs1"
            by (simp add: performConversion_def await_def Let_def)
          with fresh f1 show ?thesis by (simp add: file_exists_def)
        next
          case r1: (Inr u)
          show ?thesis
          proof (cases "selectStrategy (takeWhile (\<lambda>c. c \<noteq> CHR ''/'') mime) (targetFormat j)")
            case (Inl e2)
            with Pair Inr Some run fs0 temp mk r1 have "fs' = fs1"
              by (simp add: performConversion_def await_def Let_def reject_def)
            with fresh f1 show ?thesis by (simp add: file_exists_def)
          next
            case st: (Inr strategy)
            let ?body = "await (dispatch cd strategy (takeWhile (\<lambda>c. c \<noteq> CHR ''/'') mime) j ?out) (\<lambda>_.
                       await (stat ?out) (\<lambda>stats fs.
                         (Inr \<lparr> originalPath = filePath j, convertedPath = ?out,
                                 format = targetFormat j, size = length (content stats),
                                 mimeType = getMimeType (targetFormat j),
                                 conv_sessionId = sessionId j, timestamp = nowMs fs \<rparr>, fs)))"
            have "try_catch ?body (\<lambda>error. await (unlink_quiet ?out) (\<lambda>_. reject error)) fs1 = (Inl e, fs')"
              using Pair Inr Some run fs0 temp mk r1 st
              by (simp add: performConversion_def await_def Let_def)
            then show ?thesis
              by (rule try_catch_cleanup)
          qed
        qed
      qed
    qed
  qed
  with run show ?thesis by simp
qed

theorem failed_job_leaves_no_output_witness:
  "TEMP_DIR conv_env = Some ''/tmp''
   \<and> \<not> file_exists (conv_fs False) (outputPath_of ''/tmp'' ''id'' (sample_job ''png''))
   \<and> fst (performConversion conv_env (sample_codecs ''image/jpeg'') ''id'' (sample_job ''png'')
            (conv_fs False)) = Inl (Error ''Input file is corrupt'' None)
   \<and> \<not> file_exists
         (snd (performConversion conv_env (sample_codecs ''image/jpeg'') ''id'' (sample_job ''png'')
            (conv_fs False)))
         (outputPath_of ''/tmp'' ''id'' (sample_job ''png''))"
proof -
  have temp: "TEMP_DIR conv_env = Some ''/tmp''"
    by (simp add: conv_env_def)
  have fresh: "\<not> file_exists (conv_fs False) (outputPath_of ''/tmp'' ''id'' (sample_job ''png''))"
    by (simp add: sample_output file_exists_def conv_fs_def)
  have failed: "fst (performConversion conv_env (sample_codecs ''image/jpeg'') ''id'' (sample_job ''png'')
            (conv_fs False)) = Inl (Error ''Input file is corrupt'' None)"
    by (simp add: png_run)
  have "journal (snd (performConversion conv_env (sample_codecs ''image/jpeg'') ''id'' (sample_job ''png'')
            (conv_fs False)))
          = [Invoke ''sharp'' (''/tmp/converted'', ''id.png''), Unlink (''/tmp/converted'', ''id.png'') True]"
    by (simp add: png_run)
  with failed_job_leaves_no_output [OF temp fresh failed] temp fresh failed
  show ?thesis
    by (simp add: sample_output)
qed

text \<open>
  The claim as stated fails when the unlink is refused: the job fails and the partial file
  that \<^verbatim>\<open>sharp\<close> left is still at the output path.
\<close>

theorem failed_job_output_remains:
  "fst (performConversion conv_env (sample_codecs ''image/jpeg'') ''id'' (sample_job ''png'')
          (conv_fs True)) = Inl (Error ''Input file is corrupt'' None)
   \<and> \<not> file_exists (conv_fs True) (''/tmp/converted'', ''id.png'')
   \<and> file_exists
         (snd (performConversion conv_env (sample_codecs ''image/jpeg'') ''id'' (sample_job ''png'')
            (conv_fs True)))
         (''/tmp/converted'', ''id.png'')"
  by (simp add: png_run file_exists_def) (simp add: conv_fs_def)

text \<open>
  C2. An audio file with the target format \<^verbatim>\<open>pdf\<close>: \<^verbatim>\<open>selectStrategy\<close> looks at the target format
  only and answers \<^verbatim>\<open>libreoffice\<close> for every file type, so LibreOffice is called on the audio
  file and the conversion is reported as done.
\<close>

theorem audio_to_pdf_invokes_libreoffice:
  "selectStrategy fileType ''pdf'' = Inr ''libreoffice''
   \<and> fst (performConversion conv_env (sample_codecs ''audio/mpeg'') ''id'' (sample_job ''pdf'')
            (conv_fs False))
       = Inr \<lparr> originalPath = (''/tmp/uploads'', ''in''), convertedPath = (''/tmp/converted'', ''id.pdf''),
               format = ''pdf'', size = 2, mimeType = ''application/pdf'', conv_sessionId = ''s'',
               timestamp = 10 \<rparr>
   \<and> journal (snd (performConversion conv_env (sample_codecs ''audio/mpeg'') ''id'' (sample_job ''pdf'')
            (conv_fs False)))
       = [Invoke ''libreoffice'' (''/tmp/converted'', ''id.pdf''),
          WriteFile (''/tmp/converted'', ''id.pdf'') [4, 5] True]"
  by (simp add: pdf_run) (simp add: selectStrategy_def)

section \<open>ConversionService and ConversionCore (the conversion service module)\<close>

subsection \<open>Promises that may never settle\<close>

text \<open>
  A promise made with \<^verbatim>\<open>new Promise\<close> settles only when \<^verbatim>\<open>resolve\<close> or \<^verbatim>\<open>reject\<close> is called. In
  this module the callbacks that call them are \<^verbatim>\<open>async\<close> functions: when an \<^verbatim>\<open>await\<close> inside
  such a callback throws, the callback's own promise is rejected, nobody handles it, and the
  promise of \<^verbatim>\<open>new Promise\<close> stays pending for ever. A task is a promise with this third
  outcome: \<open>None\<close> is "never settles".
\<close>

type_synonym 'a task = "fsys \<Rightarrow> (error + 'a) option \<times> fsys"

definition lift_promise :: "'a promise \<Rightarrow> 'a task" where
  "lift_promise m fs = (case m fs of (r, fs') \<Rightarrow> (Some r, fs'))"

text \<open>The body of an \<^verbatim>\<open>async\<close> callback that ends in \<^verbatim>\<open>resolve(x)\<close> and has no \<^verbatim>\<open>catch\<close>.\<close>

definition unhandled :: "'a promise \<Rightarrow> 'a task" where
  "unhandled m fs = (case m fs of (Inr x, fs') \<Rightarrow> (Some (Inr x), fs') | (Inl e, fs') \<Rightarrow> (None, fs'))"

definition await_task :: "'a task \<Rightarrow> ('a \<Rightarrow> 'b task) \<Rightarrow> 'b task" where
  "await_task m k fs =
     (case m fs of
        (None, fs') \<Rightarrow> (None, fs')
      | (Some (Inl e), fs') \<Rightarrow> (Some (Inl e), fs')
      | (Some (Inr x), fs') \<Rightarrow> k x fs')"

definition try_task :: "'a task \<Rightarrow> (error \<Rightarrow> 'a task) \<Rightarrow> 'a task" where
  "try_task m h fs =
     (case m fs of
        (None, fs') \<Rightarrow> (None, fs')
      | (Some (Inl e), fs') \<Rightarrow> h e fs'
      | (Some (Inr x), fs') \<Rightarrow> (Some (Inr x), fs'))"

subsection \<open>Options and engines\<close>

text \<open>
  An options object is an association list from property names to values; a property that
  is missing reads as \<^verbatim>\<open>undefined\<close>. \<^verbatim>\<open>{ ...a, ...b }\<close> is \<open>b @ a\<close>: the properties of \<open>b\<close> win.
\<close>

datatype jsval = JNum int | JStr string | JBool bool | JUndefined

type_synonym options = "(string \<times> jsval) list"

definition get_prop :: "options \<Rightarrow> string \<Rightarrow> jsval" where
  "get_prop obj k = (case map_of obj k of None \<Rightarrow> JUndefined | Some v \<Rightarrow> v)"

fun truthy :: "jsval \<Rightarrow> bool" where
  "truthy (JNum n) = (n \<noteq> 0)"
| "truthy (JStr s) = (s \<noteq> [])"
| "truthy (JBool b) = b"
| "truthy JUndefined = False"

text \<open>\<^verbatim>\<open>a || b\<close>\<close>

definition js_or :: "jsval \<Rightarrow> jsval \<Rightarrow> jsval" where
  "js_or a b = (if truthy a then a else b)"

text \<open>\<^verbatim>\<open>a > n\<close> for a property that is a number or missing.\<close>

fun js_gt :: "jsval \<Rightarrow> int \<Rightarrow> bool" where
  "js_gt (JNum a) n = (n < a)"
| "js_gt v n = False"

text \<open>
  The libraries the module imports (\<^verbatim>\<open>file-type\<close>, \<^verbatim>\<open>sharp\<close>, \<^verbatim>\<open>ffmpeg\<close>, LibreOffice,
  \<^verbatim>\<open>pdf-parse\<close>, \<^verbatim>\<open>tesseract\<close>) are parameters.
\<close>

record service =
  sv_fileTypeOf :: "byte list \<Rightarrow> string option"
  sv_sharp :: "byte list \<Rightarrow> string \<Rightarrow> options \<Rightarrow> engine_result"
  sv_ffmpeg_video :: "byte list \<Rightarrow> string \<Rightarrow> engine_result"
  sv_ffmpeg_audio :: "byte list \<Rightarrow> jsval \<Rightarrow> engine_result"
  sv_libreoffice :: "byte list \<Rightarrow> string \<Rightarrow> error + byte list"
  sv_pdf_parse :: "byte list \<Rightarrow> error + byte list"
  sv_tesseract :: "byte list \<Rightarrow> jsval \<Rightarrow> options \<Rightarrow> error + byte list"

record metrics =
  processingTime :: int
  compressionRatio :: "(nat \<times> nat) option"

record converted =
  cv_outputPath :: path
  cv_format :: string
  cv_size :: nat
  cv_startTime :: int
  cv_metrics :: metrics

text \<open>The object a converter returns; \<open>ratio\<close> is \<^verbatim>\<open>compressionRatio\<close> as numerator and denominator.\<close>

definition converter_result ::
  "path \<Rightarrow> string \<Rightarrow> int \<Rightarrow> (nat \<times> nat) option \<Rightarrow> file_entry \<Rightarrow> converted promise" where
  "converter_result outputPath fmt startTime ratio stats fs =
     (Inr \<lparr> cv_outputPath = outputPath, cv_format = fmt, cv_size = length (content stats),
             cv_startTime = startTime,
             cv_metrics = \<lparr> processingTime = nowMs fs - startTime, compressionRatio = ratio \<rparr> \<rparr>, fs)"

subsection \<open>The converters of ConversionCore\<close>

definition convertImage :: "service \<Rightarrow> path \<Rightarrow> path \<Rightarrow> string \<Rightarrow> options \<Rightarrow> converted task" where
  "convertImage sv inputPath outputPath fmt opts =
     lift_promise (\<lambda>fs0.
       (await (run_engine ''sharp'' (\<lambda>bytes. sv_sharp sv bytes fmt opts) inputPath outputPath) (\<lambda>_.
        await (stat outputPath) (\<lambda>stats.
        await (stat inputPath) (\<lambda>inputStats.
        converter_result outputPath fmt (nowMs fs0)
          (Some (length (content stats), length (content inputStats))) stats)))) fs0)"

definition convertVideo :: "service \<Rightarrow> path \<Rightarrow> path \<Rightarrow> string \<Rightarrow> options \<Rightarrow> converted task" where
  "convertVideo sv inputPath outputPath fmt opts =
     (\<lambda>fs0.
       await_task
         (lift_promise (run_engine ''ffmpeg'' (\<lambda>bytes. sv_ffmpeg_video sv bytes fmt) inputPath outputPath))
         (\<lambda>_. unhandled (await (stat outputPath) (converter_result outputPath fmt (nowMs fs0) None)))
         fs0)"

definition extractAudio :: "service \<Rightarrow> path \<Rightarrow> path \<Rightarrow> options \<Rightarrow> converted task" where
  "extractAudio sv inputPath outputPath opts =
     (\<lambda>fs0.
       await_task
         (lift_promise (run_engine ''ffmpeg''
            (\<lambda>bytes. sv_ffmpeg_audio sv bytes (js_or (get_prop opts ''bitrate'') (JStr ''192k'')))
            inputPath outputPath))
         (\<lambda>_. unhandled (await (stat outputPath) (converter_result outputPath ''mp3'' (nowMs fs0) None)))
         fs0)"

text \<open>A call of a library function that maps bytes to bytes or rejects.\<close>

definition library_call :: "string \<Rightarrow> path \<Rightarrow> error + byte list \<Rightarrow> byte list promise" where
  "library_call engine outputPath answer fs =
     (answer, fs\<lparr> journal := journal fs @ [Invoke engine outputPath] \<rparr>)"

definition convertDocument :: "service \<Rightarrow> path \<Rightarrow> path \<Rightarrow> string \<Rightarrow> options \<Rightarrow> converted task" where
  "convertDocument sv inputPath outputPath fmt opts =
     (\<lambda>fs0.
       (if fmt = ''pdf''
        then await_task (lift_promise (readFile inputPath)) (\<lambda>fileData.
             await_task
               (lift_promise (library_call ''libreoffice'' outputPath (sv_libreoffice sv fileData ''.pdf'')))
               (\<lambda>pdfData.
                  unhandled (await (writeFile outputPath pdfData) (\<lambda>_.
                             await (stat outputPath)
                               (converter_result outputPath ''pdf'' (nowMs fs0) None)))))
        else if fmt = ''txt''
        then lift_promise
               (await (readFile inputPath) (\<lambda>dataBuffer.
                await (library_call ''pdf-parse'' outputPath (sv_pdf_parse sv dataBuffer)) (\<lambda>text.
                await (writeFile outputPath text) (\<lambda>_.
                await (stat outputPath) (converter_result outputPath ''txt'' (nowMs fs0) None)))))
        else lift_promise (reject (Error ''Document conversion not yet implemented'' None))) fs0)"

definition performOCR :: "service \<Rightarrow> path \<Rightarrow> path \<Rightarrow> options \<Rightarrow> converted task" where
  "performOCR sv inputPath outputPath opts =
     lift_promise (\<lambda>fs0.
       (await (readFile inputPath) (\<lambda>image.
        await (library_call ''tesseract'' outputPath
                 (sv_tesseract sv image (js_or (get_prop opts ''lang'') (JStr ''eng'')) opts)) (\<lambda>text.
        await (writeFile outputPath text) (\<lambda>_.
        await (stat outputPath) (converter_result outputPath ''txt'' (nowMs fs0) None))))) fs0)"

subsection \<open>convertFile\<close>

text \<open>\<^verbatim>\<open>path.extname\<close> of an entry name, and \<^verbatim>\<open>path.basename(name, ext)\<close>.\<close>

definition extname :: "string \<Rightarrow> string" where
  "extname name =
     (let ext = rev (takeWhile (\<lambda>c. c \<noteq> CHR ''.'') (rev name))
      in if \<not> List.member name CHR ''.'' \<or> length ext + 1 = length name \<or> name = ''..''
         then [] else CHR ''.'' # ext)"

definition basename :: "string \<Rightarrow> string \<Rightarrow> string" where
  "basename name ext =
     (if ext \<noteq> [] \<and> ext \<noteq> name \<and> drop (length name - length ext) name = ext
      then take (length name - length ext) name else name)"

record core_result =
  cr_converted :: converted
  cr_originalFile :: path
  cr_conversionTime :: int

definition core_dispatch ::
  "service \<Rightarrow> string \<Rightarrow> path \<Rightarrow> path \<Rightarrow> string \<Rightarrow> options \<Rightarrow> converted task" where
  "core_dispatch sv fileType inputPath outputPath targetFmt opts =
     (let key = fileType @ ''_'' @ targetFmt in
      if List.member [''image_webp'', ''image_avif'', ''image_png'', ''image_jpg''] key
        then convertImage sv inputPath outputPath targetFmt opts
      else if List.member [''video_mp4'', ''video_webm'', ''video_gif''] key
        then convertVideo sv inputPath outputPath targetFmt opts
      else if key = ''video_mp3''
        then extractAudio sv inputPath outputPath opts
      else if List.member [''application_pdf'', ''application_docx'', ''application_txt''] key
        then convertDocument sv inputPath outputPath targetFmt opts
      else if key = ''image_txt''
        then performOCR sv inputPath outputPath opts
      else lift_promise
             (reject (Error (''Unsupported conversion: '' @ fileType @ '' to '' @ targetFmt) None)))"

definition sv_fileTypeFromFile :: "service \<Rightarrow> path \<Rightarrow> string option promise" where
  "sv_fileTypeFromFile sv p = await (readFile p) (\<lambda>bytes. resolve (sv_fileTypeOf sv bytes))"

text \<open>\<^verbatim>\<open>const { mime } = await fileTypeFromFile(filePath); mime.split('/')[0]\<close>\<close>

definition detect_fileType :: "service \<Rightarrow> path \<Rightarrow> string promise" where
  "detect_fileType sv p =
     await (sv_fileTypeFromFile sv p) (\<lambda>detected.
       case detected of
         None \<Rightarrow> reject (Error ''Cannot destructure property mime of undefined'' None)
       | Some mime \<Rightarrow> resolve (takeWhile (\<lambda>c. c \<noteq> CHR ''/'') mime))"

text \<open>\<^verbatim>\<open>options.outputDir || path.join(process.env.TEMP_DIR, 'converted')\<close>\<close>

definition outputDir_of :: "environment \<Rightarrow> options \<Rightarrow> string promise" where
  "outputDir_of env opts =
     (case get_prop opts ''outputDir'' of
        JStr d \<Rightarrow> if d \<noteq> [] then resolve d
                  else (case TEMP_DIR env of
                          None \<Rightarrow> reject (Error ''The path argument must be of type string''
                                              (Some ''ERR_INVALID_ARG_TYPE''))
                        | Some temp \<Rightarrow> resolve (path_join temp ''converted''))
      | _ \<Rightarrow> (case TEMP_DIR env of
                 None \<Rightarrow> reject (Error ''The path argument must be of type string''
                                     (Some ''ERR_INVALID_ARG_TYPE''))
               | Some temp \<Rightarrow> resolve (path_join temp ''converted'')))"

definition convertFile :: "service \<Rightarrow> environment \<Rightarrow> path \<Rightarrow> string \<Rightarrow> options \<Rightarrow> core_result task" where
  "convertFile sv env inputPath targetFmt opts =
     await_task (lift_promise (detect_fileType sv inputPath)) (\<lambda>fileType.
     await_task (lift_promise (outputDir_of env opts)) (\<lambda>outputDir.
     await_task (lift_promise (mkdir outputDir)) (\<lambda>_.
     let outputFileName = basename (snd inputPath) (extname (snd inputPath)) @ ''.'' @ targetFmt;
         outputPath = (outputDir, outputFileName)
     in try_task
          (await_task (core_dispatch sv fileType inputPath outputPath targetFmt opts) (\<lambda>result.
           lift_promise (\<lambda>fs.
             (Inr \<lparr> cr_converted = result, cr_originalFile = inputPath,
                     cr_conversionTime = nowMs fs - cv_startTime result \<rparr>, fs))))
          (\<lambda>error. lift_promise (await (unlink_quiet outputPath) (\<lambda>_. reject error))))))"

subsection \<open>ConversionOptimizer and convertSingleFile\<close>

definition getOptimalSettings :: "string \<Rightarrow> string \<Rightarrow> options \<Rightarrow> options" where
  "getOptimalSettings inputType targetFmt metadata =
     (let key = inputType @ ''_'' @ targetFmt in
      if key = ''image_webp''
        then [(''quality'', JNum (if js_gt (get_prop metadata ''width'') 2000 then 75 else 85)),
              (''alphaQuality'', if truthy (get_prop metadata ''hasAlpha'') then JNum 100 else JUndefined)]
      else if key = ''video_mp4''
        then [(''crf'', JNum (if js_gt (get_prop metadata ''duration'') 60 then 28 else 23)),
              (''preset'', JStr ''slow'')]
      else if key = ''application_pdf''
        then [(''compress'', JBool True), (''quality'', JStr ''prepress'')]
      else [])"

text \<open>
  The module of \<^verbatim>\<open>ConversionService\<close> imports \<^verbatim>\<open>fs/promises\<close>, \<^verbatim>\<open>path\<close>, \<^verbatim>\<open>uuid\<close>, \<^verbatim>\<open>sharp\<close>,
  \<^verbatim>\<open>fluent-ffmpeg\<close>, \<^verbatim>\<open>libreoffice-convert\<close>, \<^verbatim>\<open>pdf-parse\<close>, \<^verbatim>\<open>tesseract.js\<close>, \<^verbatim>\<open>worker_threads\<close> and
  \<^verbatim>\<open>file-type\<close>, and declares \<^verbatim>\<open>ConversionCore\<close>, \<^verbatim>\<open>ConversionOptimizer\<close> and
  \<^verbatim>\<open>ConversionService\<close>. \<^verbatim>\<open>FileAnalyzer\<close> is a class of another module, which does not export it,
  and no runtime has a global of that name. So in this module the expression
  \<^verbatim>\<open>FileAnalyzer.deepInspect(filePath)\<close> throws a \<^verbatim>\<open>ReferenceError\<close> when it is evaluated, whatever
  the file.
\<close>

definition deepInspect_call :: "path \<Rightarrow> options promise" where
  "deepInspect_call inputPath = reject (ReferenceError ''FileAnalyzer'')"

datatype response =
    Succeeded core_result string string metrics
  | Failed string path string

fun success :: "response \<Rightarrow> bool" where
  "success (Succeeded result originalFormat targetFmt optimizationMetrics) = True"
| "success (Failed msg p targetFmt) = False"

text \<open>
  \<^verbatim>\<open>convertSingleFile\<close>: the first constructor is the object with \<^verbatim>\<open>success: true\<close>, the spread
  result, \<^verbatim>\<open>originalFormat\<close>, \<^verbatim>\<open>targetFormat\<close> and \<^verbatim>\<open>optimizationMetrics\<close>; the second is the
  object with \<^verbatim>\<open>success: false\<close>, \<^verbatim>\<open>error\<close>, \<^verbatim>\<open>filePath\<close> and \<^verbatim>\<open>targetFormat\<close>.
\<close>

definition convertSingleFile ::
  "service \<Rightarrow> environment \<Rightarrow> path \<Rightarrow> string \<Rightarrow> options \<Rightarrow> response task" where
  "convertSingleFile sv env inputPath targetFmt opts =
     try_task
       (await_task (lift_promise (detect_fileType sv inputPath)) (\<lambda>fileType.
        await_task (lift_promise (deepInspect_call inputPath)) (\<lambda>analysis.
        let optimalSettings = getOptimalSettings fileType targetFmt analysis in
        await_task (convertFile sv env inputPath targetFmt (optimalSettings @ opts)) (\<lambda>result.
        lift_promise (resolve
          (Succeeded result (drop 1 (extname (snd inputPath))) targetFmt
             (cv_metrics (cr_converted result))))))))
       (\<lambda>error. lift_promise (resolve (Failed (message error) inputPath targetFmt)))"

subsection \<open>What convertSingleFile returns\<close>

lemma detect_fileType_state: "detect_fileType sv p fs = (r, fs') \<Longrightarrow> fs' = fs"
  by (auto simp: detect_fileType_def sv_fileTypeFromFile_def readFile_def await_def resolve_def
        reject_def split: option.splits)

text \<open>
  C10. For every input, every behaviour of the libraries and every file system, the promise
  of \<^verbatim>\<open>convertSingleFile\<close> is fulfilled, never rejected and never left pending, and its value is
  the object with \<^verbatim>\<open>success: false\<close>, the message of the error that was thrown, the input path
  and the target format. The error is the one of \<^verbatim>\<open>fileTypeFromFile\<close> (or of reading \<^verbatim>\<open>mime\<close>)
  when that fails, and the \<^verbatim>\<open>ReferenceError\<close> for \<^verbatim>\<open>FileAnalyzer\<close> otherwise: the analysis fails
  in every call, inside the \<^verbatim>\<open>try\<close> block, so no call reaches the conversion or the object
  with \<^verbatim>\<open>success: true\<close>. The file system is left as it was.
\<close>

theorem convertSingleFile_returns_failure_object:
  "convertSingleFile sv env inputPath targetFmt opts fs =
     (Some (Inr (Failed (case fst (detect_fileType sv inputPath fs) of
                           Inl e \<Rightarrow> message e
                         | Inr fileType \<Rightarrow> ''FileAnalyzer is not defined'')
                        inputPath targetFmt)), fs)"
proof (cases "detect_fileType sv inputPath fs")
  case (Pair r fs')
  then have "fs' = fs"
    by (rule detect_fileType_state)
  with Pair show ?thesis
    by (cases r)
       (simp_all add: convertSingleFile_def try_task_def await_task_def lift_promise_def
          deepInspect_call_def ReferenceError_def reject_def resolve_def)
qed

subsection \<open>A write that fails inside convertDocument\<close>

definition doc_service :: service where
  "doc_service =
     \<lparr> sv_fileTypeOf = (\<lambda>bytes. Some ''application/msword''),
       sv_sharp = (\<lambda>bytes fmt opts. EngineDone [1]),
       sv_ffmpeg_video = (\<lambda>bytes fmt. EngineDone [2]),
       sv_ffmpeg_audio = (\<lambda>bytes bitrate. EngineDone [3]),
       sv_libreoffice = (\<lambda>bytes fmt. Inr [4, 5]),
       sv_pdf_parse = (\<lambda>bytes. Inr [6]),
       sv_tesseract = (\<lambda>bytes lang opts. Inr [7]) \<rparr>"

definition doc_fs :: "bool \<Rightarrow> fsys" where
  "doc_fs refused =
     \<lparr> dirs = [''/tmp/uploads'', ''/tmp/converted''],
       files = [((''/tmp/uploads'', ''report.doc''), \<lparr> content = [9], mtimeMs = 1 \<rparr>)],
       nowMs = 10, refuses = (\<lambda>p k. refused), journal = [] \<rparr>"

lemmas service_defs =
  convertFile_def detect_fileType_def sv_fileTypeFromFile_def readFile_def
  outputDir_of_def get_prop_def mkdir_def dir_exists_def path_join_examples extname_def basename_def
  core_dispatch_def convertDocument_def library_call_def writeFile_def stat_def converter_result_def
  unlink_quiet_def unlink_def attempts_def
  try_task_def await_task_def lift_promise_def unhandled_def await_def resolve_def reject_def
  try_catch_def Let_def

text \<open>
  \<^verbatim>\<open>ConversionCore.convertFile\<close> on its own, for a document converted to \<^verbatim>\<open>pdf\<close> when LibreOffice
  answers and the write of the output file is refused. The write happens inside the \<^verbatim>\<open>async\<close>
  callback given to \<^verbatim>\<open>LibreOffice.convert\<close>, so its failure reaches neither \<^verbatim>\<open>reject\<close> nor any
  \<^verbatim>\<open>catch\<close>: the promise of \<^verbatim>\<open>convertFile\<close> never settles. For the target \<^verbatim>\<open>txt\<close> the same
  refused write is awaited directly and the promise is rejected. \<^verbatim>\<open>convertSingleFile\<close> does not
  get as far as this call.
\<close>

lemma convertFile_pdf_write_failure_never_settles:
  "fst (convertFile doc_service conv_env (''/tmp/uploads'', ''report.doc'') ''pdf'' [] (doc_fs True))
     = None"
  "journal (snd (convertFile doc_service conv_env (''/tmp/uploads'', ''report.doc'') ''pdf'' []
                    (doc_fs True)))
     = [Invoke ''libreoffice'' (''/tmp/converted'', ''report.pdf''),
        WriteFile (''/tmp/converted'', ''report.pdf'') [4, 5] False]"
  "fst (convertFile doc_service conv_env (''/tmp/uploads'', ''report.doc'') ''txt'' [] (doc_fs True))
     = Some (Inl EPERM)"
  by (simp_all add: service_defs doc_service_def conv_env_def doc_fs_def)

section \<open>QuantumFileSystem: secureWrite and secureRead (converter.js)\<close>

text \<open>
  \<^verbatim>\<open>buffer.toString('hex')\<close> and \<^verbatim>\<open>Buffer.from(string, 'hex')\<close>. Decoding reads two digits per
  byte, takes upper and lower case, and stops at the first pair that is not hexadecimal.
\<close>

definition hex_digit :: "nat \<Rightarrow> char" where
  "hex_digit n = ''0123456789abcdef'' ! n"

definition digit_val :: "char \<Rightarrow> nat option" where
  "digit_val c =
     map_of (zip ''0123456789abcdef'' [0 ..< 16] @ zip ''ABCDEF'' [10 ..< 16]) c"

definition to_hex :: "byte list \<Rightarrow> string" where
  "to_hex bytes = concat (map (\<lambda>b. [hex_digit (unat b div 16), hex_digit (unat b mod 16)]) bytes)"

fun from_hex :: "string \<Rightarrow> byte list" where
  "from_hex (hi # lo # rest) =
     (case (digit_val hi, digit_val lo) of
        (Some h, Some l) \<Rightarrow> of_nat (16 * h + l) # from_hex rest
      | _ \<Rightarrow> [])"
| "from_hex rest = []"

text \<open>
  AES-256-GCM is Node's \<^verbatim>\<open>crypto\<close>, not code of the repository: \<open>gcm_encrypt key iv plain\<close> is
  the ciphertext (\<^verbatim>\<open>update\<close> and \<^verbatim>\<open>final\<close>) with the authentication tag, \<open>gcm_decrypt\<close> is the
  plaintext, or \<open>None\<close> when \<^verbatim>\<open>final\<close> cannot authenticate the data. \<^verbatim>\<open>createCipheriv\<close> and
  \<^verbatim>\<open>createDecipheriv\<close> throw for a key that is not 32 bytes long, \<^verbatim>\<open>setAuthTag\<close> for a tag of
  an invalid length.
\<close>

record aead =
  gcm_encrypt :: "byte list \<Rightarrow> byte list \<Rightarrow> byte list \<Rightarrow> byte list \<times> byte list"
  gcm_decrypt :: "byte list \<Rightarrow> byte list \<Rightarrow> byte list \<Rightarrow> byte list \<Rightarrow> byte list option"

record security_info =
  encryption :: string
  iv_hex :: string
  key_hex :: string
  authTag_hex :: string

record secured =
  fileId :: string
  sc_filePath :: path
  security :: security_info

definition check_key :: "byte list \<Rightarrow> unit promise" where
  "check_key key = (if length key = 32 then resolve () else reject (Error ''Invalid key length'' None))"

definition check_tag :: "byte list \<Rightarrow> unit promise" where
  "check_tag tag =
     (if List.member [4, 8, 12, 13, 14, 15, 16] (length tag) then resolve ()
      else reject (Error ''Invalid authentication tag length'' None))"

text \<open>
  \<^verbatim>\<open>secureWrite\<close>: \<open>uuid\<close> is the value of \<^verbatim>\<open>uuidv4()\<close>, \<open>iv\<close> that of \<^verbatim>\<open>crypto.randomBytes(16)\<close> and
  \<open>key\<close> that of \<^verbatim>\<open>crypto.randomBytes(32)\<close>. The directory is \<^verbatim>\<open>options.tempDir\<close>, or
  \<^verbatim>\<open>secure\<close> under \<^verbatim>\<open>TEMP_DIR\<close>.
\<close>

definition secure_dir :: "environment \<Rightarrow> string option \<Rightarrow> string promise" where
  "secure_dir env tempDir =
     (case tempDir of
        Some d \<Rightarrow> if d \<noteq> [] then resolve d
                   else (case TEMP_DIR env of
                           None \<Rightarrow> reject (Error ''The path argument must be of type string''
                                               (Some ''ERR_INVALID_ARG_TYPE''))
                         | Some temp \<Rightarrow> resolve (path_join temp ''secure''))
      | None \<Rightarrow> (case TEMP_DIR env of
                    None \<Rightarrow> reject (Error ''The path argument must be of type string''
                                        (Some ''ERR_INVALID_ARG_TYPE''))
                  | Some temp \<Rightarrow> resolve (path_join temp ''secure'')))"

definition secureWrite ::
  "aead \<Rightarrow> environment \<Rightarrow> string option \<Rightarrow> string \<Rightarrow> byte list \<Rightarrow> byte list \<Rightarrow> byte list
     \<Rightarrow> secured promise" where
  "secureWrite cipher env tempDir uuid iv key fileData =
     await (secure_dir env tempDir) (\<lambda>dir.
     await (mkdir dir) (\<lambda>_.
     await (check_key key) (\<lambda>_.
     let encrypted = gcm_encrypt cipher key iv fileData in
     await (writeFile (dir, uuid) (iv @ fst encrypted)) (\<lambda>_.
     resolve \<lparr> fileId = uuid, sc_filePath = (dir, uuid),
               security = \<lparr> encryption = ''aes-256-gcm'', iv_hex = to_hex iv,
                            key_hex = to_hex key, authTag_hex = to_hex (snd encrypted) \<rparr> \<rparr>))))"

definition secureRead :: "aead \<Rightarrow> path \<Rightarrow> security_info \<Rightarrow> byte list promise" where
  "secureRead cipher encryptedFile sec =
     (let iv = from_hex (iv_hex sec);
          key = from_hex (key_hex sec);
          authTag = from_hex (authTag_hex sec)
      in await (check_key key) (\<lambda>_.
         await (check_tag authTag) (\<lambda>_.
         await (readFile encryptedFile) (\<lambda>encryptedData.
           case gcm_decrypt cipher key iv authTag (drop 16 encryptedData) of
             None \<Rightarrow> reject (Error ''Unsupported state or unable to authenticate data'' None)
           | Some data \<Rightarrow> resolve data))))"

text \<open>The file system with byte \<open>j\<close> of the file at \<open>p\<close> replaced by \<open>b\<close>.\<close>

definition corrupt_file :: "path \<Rightarrow> nat \<Rightarrow> byte \<Rightarrow> fsys \<Rightarrow> fsys" where
  "corrupt_file p j b fs =
     (case map_of (files fs) p of
        None \<Rightarrow> fs
      | Some f \<Rightarrow> fs\<lparr> files := AList.update p (f\<lparr> content := (content f)[j := b] \<rparr>) (files fs) \<rparr>)"

lemma upt_16: "[0 ..< 16] = [0, 1, 2, 3, 4, 5, 6, 7, 8, 9, 10, 11, 12, 13, 14, 15]"
  by (simp add: upt_rec)

lemma upt_10_16: "[10 ..< 16] = [10, 11, 12, 13, 14, 15]"
  by (simp add: upt_rec)

lemma digit_val_hex_digit: "n < 16 \<Longrightarrow> digit_val (hex_digit n) = Some n"
proof -
  assume "n < 16"
  then have "n \<in> set [0 ..< 16]" by simp
  then have "n \<in> set [0, 1, 2, 3, 4, 5, 6, 7, 8, 9, 10, 11, 12, 13, 14, 15 :: nat]"
    by (simp only: upt_16)
  then consider "n = 0" | "n = 1" | "n = 2" | "n = 3" | "n = 4" | "n = 5" | "n = 6" | "n = 7"
    | "n = 8" | "n = 9" | "n = 10" | "n = 11" | "n = 12" | "n = 13" | "n = 14" | "n = 15"
    by auto
  then show ?thesis
    by cases (simp_all add: hex_digit_def digit_val_def upt_16 upt_10_16)
qed

lemma byte_of_nibbles: "(of_nat (16 * (unat b div 16) + unat b mod 16) :: byte) = b"
  by simp

lemma from_hex_to_hex: "from_hex (to_hex bytes) = bytes"
proof (induction bytes)
  case Nil
  then show ?case by (simp add: to_hex_def)
next
  case (Cons b bytes)
  have "unat b < 2 ^ LENGTH(8)"
    by (rule unsigned_less)
  then have hi: "unat b div 16 < 16"
    by simp
  have lo: "unat b mod 16 < 16" by simp
  have "to_hex (b # bytes) = hex_digit (unat b div 16) # hex_digit (unat b mod 16) # to_hex bytes"
    by (simp add: to_hex_def)
  then show ?case
    using Cons.IH by (simp add: digit_val_hex_digit [OF hi] digit_val_hex_digit [OF lo] byte_of_nibbles)
qed

lemma secureWrite_result:
  assumes "secureWrite cipher env tempDir uuid iv key x fs = (Inr w, fs1)"
    and "gcm_encrypt cipher key iv x = (c, t)"
  shows "map_of (files fs1) (sc_filePath w) = Some \<lparr> content = iv @ c, mtimeMs = nowMs fs1 \<rparr>
       \<and> security w = \<lparr> encryption = ''aes-256-gcm'', iv_hex = to_hex iv,
                          key_hex = to_hex key, authTag_hex = to_hex t \<rparr>
       \<and> length key = 32"
  using assms
  by (auto simp: secureWrite_def await_def Let_def resolve_def reject_def check_key_def writeFile_def
        mkdir_def AList.update_conv' split: prod.splits sum.splits if_splits)

lemma secureRead_eval:
  assumes "map_of (files fs) p = Some f" and "length key = 32" and "length t = 16"
  shows "fst (secureRead cipher p
                \<lparr> encryption = enc, iv_hex = to_hex iv, key_hex = to_hex key, authTag_hex = to_hex t \<rparr> fs) =
           (case gcm_decrypt cipher key iv t (drop 16 (content f)) of
              None \<Rightarrow> Inl (Error ''Unsupported state or unable to authenticate data'' None)
            | Some data \<Rightarrow> Inr data)"
  using assms
  by (simp add: secureRead_def Let_def from_hex_to_hex check_key_def check_tag_def readFile_def
        await_def resolve_def reject_def split: option.splits)

lemma corrupt_file_lookup:
  "map_of (files fs) p = Some f \<Longrightarrow>
   map_of (files (corrupt_file p j b fs)) p = Some (f\<lparr> content := (content f)[j := b] \<rparr>)"
  by (simp add: corrupt_file_def AList.update_conv')

text \<open>
  C4. \<^verbatim>\<open>secureWrite(x)\<close> has succeeded, with a 16-byte IV, and AES-256-GCM does what an
  authenticated cipher does for this key and IV: it decrypts what it encrypted, its tag has
  16 bytes, and it rejects the ciphertext and the tag when one byte of either is changed. Then
  \<^verbatim>\<open>secureRead\<close> of the written file with the returned key, IV and tag returns \<open>x\<close>; it throws
  when one byte of the ciphertext body of the file (the bytes after the 16-byte IV) is
  changed, and when one byte of the tag is changed.
\<close>

theorem secureRead_secureWrite:
  assumes wrote: "secureWrite cipher env tempDir uuid iv key x fs = (Inr w, fs1)"
    and iv: "length iv = 16"
    and enc: "gcm_encrypt cipher key iv x = (c, t)"
    and tag: "length t = 16"
    and dec: "gcm_decrypt cipher key iv t c = Some x"
    and body: "\<forall>i b. i < length c \<and> b \<noteq> c ! i \<longrightarrow> gcm_decrypt cipher key iv t (c[i := b]) = None"
    and auth: "\<forall>i b. i < length t \<and> b \<noteq> t ! i \<longrightarrow> gcm_decrypt cipher key iv (t[i := b]) c = None"
  shows "fst (secureRead cipher (sc_filePath w) (security w) fs1) = Inr x
       \<and> (\<forall>j b. 16 \<le> j \<and> j < 16 + length c \<and> b \<noteq> (iv @ c) ! j \<longrightarrow>
             (\<exists>e. fst (secureRead cipher (sc_filePath w) (security w)
                          (corrupt_file (sc_filePath w) j b fs1)) = Inl e))
       \<and> (\<forall>i b. i < length t \<and> b \<noteq> t ! i \<longrightarrow>
             (\<exists>e. fst (secureRead cipher (sc_filePath w)
                          ((security w)\<lparr> authTag_hex := to_hex (t[i := b]) \<rparr>) fs1) = Inl e))"
proof -
  note wr = secureWrite_result [OF wrote enc]
  let ?f = "\<lparr> content = iv @ c, mtimeMs = nowMs fs1 \<rparr>"
  have fl: "map_of (files fs1) (sc_filePath w) = Some ?f"
    and sec: "security w = \<lparr> encryption = ''aes-256-gcm'', iv_hex = to_hex iv,
                              key_hex = to_hex key, authTag_hex = to_hex t \<rparr>"
    and key: "length key = 32"
    using wr by simp_all
  have c1: "fst (secureRead cipher (sc_filePath w) (security w) fs1) = Inr x"
    unfolding sec using secureRead_eval [OF fl key tag, of cipher "''aes-256-gcm''" iv]
    by (simp add: iv dec)
  have c2: "\<forall>j b. 16 \<le> j \<and> j < 16 + length c \<and> b \<noteq> (iv @ c) ! j \<longrightarrow>
             (\<exists>e. fst (secureRead cipher (sc_filePath w) (security w)
                          (corrupt_file (sc_filePath w) j b fs1)) = Inl e)"
  proof (intro allI impI)
    fix j b
    assume h: "16 \<le> j \<and> j < 16 + length c \<and> b \<noteq> (iv @ c) ! j"
    let ?i = "j - 16"
    have i: "?i < length c" and bi: "b \<noteq> c ! ?i"
      using h iv by (auto simp: nth_append)
    have upd: "drop 16 ((iv @ c)[j := b]) = c[?i := b]"
      using h iv by (simp add: list_update_append)
    have fl': "map_of (files (corrupt_file (sc_filePath w) j b fs1)) (sc_filePath w)
                   = Some (?f\<lparr> content := (content ?f)[j := b] \<rparr>)"
      using fl by (rule corrupt_file_lookup)
    have "gcm_decrypt cipher key iv t (c[?i := b]) = None"
      using body i bi by blast
    then have "fst (secureRead cipher (sc_filePath w) (security w)
                 (corrupt_file (sc_filePath w) j b fs1))
               = Inl (Error ''Unsupported state or unable to authenticate data'' None)"
      unfolding sec using secureRead_eval [OF fl' key tag, of cipher "''aes-256-gcm''" iv]
      by (simp add: upd)
    then show "\<exists>e. fst (secureRead cipher (sc_filePath w) (security w)
                          (corrupt_file (sc_filePath w) j b fs1)) = Inl e"
      by blast
  qed
  have c3: "\<forall>i b. i < length t \<and> b \<noteq> t ! i \<longrightarrow>
             (\<exists>e. fst (secureRead cipher (sc_filePath w)
                          ((security w)\<lparr> authTag_hex := to_hex (t[i := b]) \<rparr>) fs1) = Inl e)"
  proof (intro allI impI)
    fix i b
    assume h: "i < length t \<and> b \<noteq> t ! i"
    have len: "length (t[i := b]) = 16"
      using tag by simp
    have "gcm_decrypt cipher key iv (t[i := b]) c = None"
      using auth h by blast
    then have "fst (secureRead cipher (sc_filePath w)
                 ((security w)\<lparr> authTag_hex := to_hex (t[i := b]) \<rparr>) fs1)
               = Inl (Error ''Unsupported state or unable to authenticate data'' None)"
      unfolding sec using secureRead_eval [OF fl key len, of cipher "''aes-256-gcm''" iv]
      by (simp add: iv)
    then show "\<exists>e. fst (secureRead cipher (sc_filePath w)
                          ((security w)\<lparr> authTag_hex := to_hex (t[i := b]) \<rparr>) fs1) = Inl e"
      by blast
  qed
  from c1 c2 c3 show ?thesis by blast
qed

text \<open>
  A stand-in cipher for the example: the ciphertext is the plaintext and the tag is the
  ciphertext padded with zeros to 16 bytes, which decryption compares.
\<close>

definition toy_tag :: "byte list \<Rightarrow> byte list" where
  "toy_tag c = take 16 (c @ replicate 16 0)"

definition toy_cipher :: aead where
  "toy_cipher =
     \<lparr> gcm_encrypt = (\<lambda>key iv plain. (plain, toy_tag plain)),
       gcm_decrypt = (\<lambda>key iv tag c. if tag = toy_tag c then Some c else None) \<rparr>"

definition secure_fs :: fsys where
  "secure_fs = \<lparr> dirs = [''/tmp/secure''], files = [], nowMs = 10,
                 refuses = (\<lambda>p k. False), journal = [] \<rparr>"

definition toy_written :: "(error + secured) \<times> fsys" where
  "toy_written =
     secureWrite toy_cipher conv_env None ''id'' (replicate 16 1) (replicate 32 2) [5] secure_fs"

definition toy_secured :: secured where
  "toy_secured =
     \<lparr> fileId = ''id'', sc_filePath = (''/tmp/secure'', ''id''),
       security = \<lparr> encryption = ''aes-256-gcm'', iv_hex = to_hex (replicate 16 1),
                    key_hex = to_hex (replicate 32 2), authTag_hex = to_hex (toy_tag [5]) \<rparr> \<rparr>"

lemma toy_write: "toy_written = (Inr toy_secured, snd toy_written)"
proof -
  have "fst toy_written = Inr toy_secured"
    by (simp add: toy_written_def toy_secured_def secureWrite_def secure_dir_def conv_env_def
          path_join_examples mkdir_def dir_exists_def secure_fs_def check_key_def writeFile_def
          attempts_def toy_cipher_def await_def resolve_def Let_def)
  then show ?thesis
    by (metis prod.collapse)
qed

theorem secureRead_secureWrite_witness:
  "length (replicate 16 (1 :: byte)) = 16
   \<and> gcm_encrypt toy_cipher (replicate 32 2) (replicate 16 1) [5] = ([5], toy_tag [5])
   \<and> length (toy_tag [5]) = 16
   \<and> gcm_decrypt toy_cipher (replicate 32 2) (replicate 16 1) (toy_tag [5]) [5] = Some [5]
   \<and> fst (secureRead toy_cipher (sc_filePath toy_secured) (security toy_secured) (snd toy_written))
       = Inr [5]
   \<and> (\<exists>e. fst (secureRead toy_cipher (sc_filePath toy_secured) (security toy_secured)
                  (corrupt_file (sc_filePath toy_secured) 16 6 (snd toy_written))) = Inl e)"
proof -
  have wrote: "secureWrite toy_cipher conv_env None ''id'' (replicate 16 1) (replicate 32 2) [5] secure_fs
                 = (Inr toy_secured, snd toy_written)"
    using toy_write by (simp add: toy_written_def)
  have iv: "length (replicate 16 (1 :: byte)) = 16"
    by simp
  have enc: "gcm_encrypt toy_cipher (replicate 32 2) (replicate 16 1) [5] = ([5], toy_tag [5])"
    by (simp add: toy_cipher_def)
  have tag: "length (toy_tag [5]) = 16"
    by (simp add: toy_tag_def)
  have dec: "gcm_decrypt toy_cipher (replicate 32 2) (replicate 16 1) (toy_tag [5]) [5] = Some [5]"
    by (simp add: toy_cipher_def)
  have body: "\<forall>i b. i < length [5 :: byte] \<and> b \<noteq> [5] ! i \<longrightarrow>
                gcm_decrypt toy_cipher (replicate 32 2) (replicate 16 1) (toy_tag [5]) ([5][i := b]) = None"
    by (auto simp: toy_cipher_def toy_tag_def)
  have auth: "\<forall>i b. i < length (toy_tag [5]) \<and> b \<noteq> toy_tag [5] ! i \<longrightarrow>
                gcm_decrypt toy_cipher (replicate 32 2) (replicate 16 1) ((toy_tag [5])[i := b]) [5] = None"
    by (auto simp: toy_cipher_def list_update_same_conv)
  note th = secureRead_secureWrite [OF wrote iv enc tag dec body auth]
  have "fst (secureRead toy_cipher (sc_filePath toy_secured) (security toy_secured) (snd toy_written))
          = Inr [5]"
    using th by blast
  moreover have "\<exists>e. fst (secureRead toy_cipher (sc_filePath toy_secured) (security toy_secured)
                  (corrupt_file (sc_filePath toy_secured) 16 6 (snd toy_written))) = Inl e"
  proof -
    have "(16::nat) \<le> 16 \<and> 16 < 16 + length [5 :: byte] \<and> (6 :: byte) \<noteq> (replicate 16 1 @ [5]) ! 16"
      by (simp add: nth_append)
    with th show ?thesis by blast
  qed
  ultimately show ?thesis
    using iv enc tag dec by simp
qed

end
